theory Spec2Isabelle
  imports Complex_Main "HOL-Library.Char_ord" "HOL-Library.List_Lexorder"
begin

section \<open>Python floats\<close>

text \<open>
  A Python \<open>float\<close> is an IEEE-754 binary64 value: a finite number (a rational), one of
  the two infinities, or NaN. The two zeros compare equal and are both \<open>Fin 0\<close>.
  The comparisons below are the ones of the language: every ordered comparison with NaN
  is false.
\<close>

datatype pyfloat = Fin rat | PInf | NInf | NaN

fun fgt :: "pyfloat \<Rightarrow> pyfloat \<Rightarrow> bool" where
  "fgt NaN _ = False"
| "fgt _ NaN = False"
| "fgt (Fin a) (Fin b) = (b < a)"
| "fgt PInf PInf = False"
| "fgt PInf _ = True"
| "fgt NInf _ = False"
| "fgt (Fin a) NInf = True"
| "fgt (Fin a) PInf = False"

fun fle :: "pyfloat \<Rightarrow> pyfloat \<Rightarrow> bool" where
  "fle NaN _ = False"
| "fle _ NaN = False"
| "fle (Fin a) (Fin b) = (a \<le> b)"
| "fle NInf _ = True"
| "fle PInf PInf = True"
| "fle PInf _ = False"
| "fle (Fin a) NInf = False"
| "fle (Fin a) PInf = True"

text \<open>
  Rounding a rational to the nearest binary64 value, ties to even, with 53 bits of
  precision. The exponent is not bounded here: on magnitudes in the normal range
  \<open>[2^-1022, 2^1024)\<close>, the only ones the handlers produce, this is the IEEE rounding.
\<close>

function bitlen :: "int \<Rightarrow> int" where
  "bitlen n = (if n \<le> 0 then 0 else 1 + bitlen (n div 2))"
  by pat_completeness auto
termination
  by (relation "measure nat") auto

declare bitlen.simps [simp del]

definition rhe :: "rat \<Rightarrow> int" where
  "rhe x = (let f = \<lfloor>x\<rfloor>; d = x - of_int f in
            if d < 1/2 then f else if 1/2 < d then f + 1
            else if even f then f else f + 1)"

definition expo :: "rat \<Rightarrow> int" where
  "expo q = (let (a, b) = quotient_of \<bar>q\<bar>;
                 e = bitlen a - bitlen b
             in if 2 powi e \<le> \<bar>q\<bar> then e else e - 1)"

definition fl :: "rat \<Rightarrow> rat" where
  "fl q = (if q = 0 then 0
           else let s = 2 powi (expo q - 52) in of_int (rhe (q / s)) * s)"

text \<open>Float arithmetic: the exact result, rounded once.\<close>

definition fadd :: "rat \<Rightarrow> rat \<Rightarrow> rat" where
  "fadd a b = fl (a + b)"

definition fsub :: "rat \<Rightarrow> rat \<Rightarrow> rat" where
  "fsub a b = fl (a - b)"

definition fmul :: "rat \<Rightarrow> rat \<Rightarrow> rat" where
  "fmul a b = fl (a * b)"

text \<open>
  \<open>round(x, nd)\<close> on a float, for \<open>nd \<ge> 0\<close>: the exact binary value is rounded to
  \<open>nd\<close> decimals, ties to even, and the decimal is converted back to the nearest float.
\<close>

definition pyround :: "rat \<Rightarrow> nat \<Rightarrow> rat" where
  "pyround x nd = fl (of_int (rhe (x * 10 ^ nd)) / 10 ^ nd)"

text \<open>The float literals of the classifiers: \<open>0.7\<close>, \<open>0.5\<close>, \<open>0.3\<close>, \<open>0.1\<close>.\<close>

definition c07 :: pyfloat where "c07 = Fin (fl (7/10))"
definition c05 :: pyfloat where "c05 = Fin (fl (5/10))"
definition c03 :: pyfloat where "c03 = Fin (fl (3/10))"
definition c01 :: pyfloat where "c01 = Fin (fl (1/10))"

section \<open>Strings\<close>

text \<open>
  Strings are byte lists; the non-ASCII characters of the source are written as their
  UTF-8 bytes.
\<close>

definition emoji_herb :: string where
  "emoji_herb = [CHR 0xF0, CHR 0x9F, CHR 0x8C, CHR 0xBF]"

definition emoji_check :: string where
  "emoji_check = [CHR 0xE2, CHR 0x9C, CHR 0x85]"

definition emoji_warning :: string where
  "emoji_warning = [CHR 0xE2, CHR 0x9A, CHR 0xA0, CHR 0xEF, CHR 0xB8, CHR 0x8F]"

definition emoji_cross :: string where
  "emoji_cross = [CHR 0xE2, CHR 0x9D, CHR 0x8C]"

definition degree_sign :: string where
  "degree_sign = [CHR 0xC2, CHR 0xB0]"

section \<open>The classifiers\<close>

definition get_ndvi_color :: "pyfloat \<Rightarrow> string \<times> string \<times> string" where
  "get_ndvi_color ndvi_value =
     (if fgt ndvi_value c07 then (''#00ff00'', ''Excellent '' @ emoji_herb, ''excellent'')
      else if fgt ndvi_value c05 then (''#aaff00'', ''Good '' @ emoji_check, ''good'')
      else if fgt ndvi_value c03 then (''#ffff00'', ''Moderate '' @ emoji_warning, ''moderate'')
      else (''#ff0000'', ''Poor '' @ emoji_cross, ''poor''))"

definition class_of :: "pyfloat \<Rightarrow> string" where
  "class_of v = snd (snd (get_ndvi_color v))"

definition interp_very_high :: string where
  "interp_very_high = ''Very high vegetation density. Likely healthy, dense crops or forest.''"

definition interp_high :: string where
  "interp_high = ''Moderate to high vegetation. Typical of healthy agricultural fields.''"

definition interp_moderate :: string where
  "interp_moderate = ''Moderate vegetation. May indicate stress or sparse crop cover.''"

definition interp_low :: string where
  "interp_low = ''Low vegetation. Could be bare soil, senescing crops, or urban areas.''"

definition interp_very_low :: string where
  "interp_very_low = ''Very low or no vegetation. Possibly water, snow, or barren land.''"

definition get_ndvi_interpretation :: "pyfloat \<Rightarrow> string" where
  "get_ndvi_interpretation ndvi =
     (if fgt ndvi c07 then interp_very_high
      else if fgt ndvi c05 then interp_high
      else if fgt ndvi c03 then interp_moderate
      else if fgt ndvi c01 then interp_low
      else interp_very_low)"

section \<open>Numbers in strings\<close>

definition digit :: "nat \<Rightarrow> char" where
  "digit n = ''0123456789'' ! n"

text \<open>\<open>str(n)\<close> for an integer, as an f-string prints it.\<close>

fun str_nat :: "nat \<Rightarrow> string" where
  "str_nat n = (if n < 10 then [digit n] else str_nat (n div 10) @ [digit (n mod 10)])"

declare str_nat.simps [simp del]

definition str_int :: "int \<Rightarrow> string" where
  "str_int i = (if i < 0 then CHR ''-'' # str_nat (nat (- i)) else str_nat (nat i))"

text \<open>
  Zero-padded fields of \<open>strftime\<close> and \<open>isoformat\<close>. The fields of a \<open>datetime\<close> are
  within their ranges by construction (year 1 to 9999, and so on), so every field has at
  most as many digits as its width.
\<close>

definition pad2 :: "nat \<Rightarrow> string" where
  "pad2 n = [digit (n div 10 mod 10), digit (n mod 10)]"

definition pad4 :: "nat \<Rightarrow> string" where
  "pad4 n = pad2 (n div 100) @ pad2 (n mod 100)"

definition pad6 :: "nat \<Rightarrow> string" where
  "pad6 n = pad2 (n div 10000) @ pad4 (n mod 10000)"

section \<open>JSON values and exceptions\<close>

text \<open>
  The values \<open>request.json\<close> yields and \<open>jsonify\<close> takes. An object is a dictionary,
  written as an association list with one entry per key; \<open>JNull\<close> is \<open>None\<close>.
\<close>

datatype json =
    JNull
  | JBool bool
  | JInt int
  | JFloat pyfloat
  | JStr string
  | JArr "json list"
  | JObj "(string \<times> json) list"

datatype py_error =
    TypeError
  | AttributeError
  | OverflowError
  | ZeroDivisionError
  | RequestError

text \<open>Truth value of a parsed JSON value (\<open>not data\<close> is its negation).\<close>

fun truthy :: "json \<Rightarrow> bool" where
  "truthy JNull = False"
| "truthy (JBool b) = b"
| "truthy (JInt i) = (i \<noteq> 0)"
| "truthy (JFloat f) = (f \<noteq> Fin 0)"
| "truthy (JStr s) = (s \<noteq> [])"
| "truthy (JArr xs) = (xs \<noteq> [])"
| "truthy (JObj kvs) = (kvs \<noteq> [])"

fun is_substr :: "string \<Rightarrow> string \<Rightarrow> bool" where
  "is_substr s [] = (s = [])"
| "is_substr s (c # t) = (take (length s) (c # t) = s \<or> is_substr s t)"

text \<open>
  \<open>key in data\<close>: key membership on a dictionary, element membership on a list,
  substring test on a string; any other value is not iterable and raises \<open>TypeError\<close>.
\<close>

fun py_in :: "string \<Rightarrow> json \<Rightarrow> py_error + bool" where
  "py_in k (JObj kvs) = Inr (k \<in> fst ` set kvs)"
| "py_in k (JArr xs) = Inr (JStr k \<in> set xs)"
| "py_in k (JStr s) = Inr (is_substr k s)"
| "py_in k _ = Inl TypeError"

text \<open>\<open>d.get(key, default)\<close> on a dictionary.\<close>

definition dict_get :: "string \<Rightarrow> (string \<times> json) list \<Rightarrow> json \<Rightarrow> json" where
  "dict_get k kvs dflt = (case map_of kvs k of None \<Rightarrow> dflt | Some v \<Rightarrow> v)"

text \<open>
  \<open>bounds[:2]\<close> succeeds on lists and strings. Every other value raises: \<open>TypeError\<close>
  (on a dictionary, a \<open>KeyError\<close> from Python 3.12 on; the handler treats both alike).
\<close>

fun slice_ok :: "json \<Rightarrow> bool" where
  "slice_ok (JArr xs) = True"
| "slice_ok (JStr s) = True"
| "slice_ok _ = False"

text \<open>Reading a response: a field of an object, and a path of fields.\<close>

fun jget :: "string \<Rightarrow> json \<Rightarrow> json option" where
  "jget k (JObj kvs) = map_of kvs k"
| "jget k _ = None"

fun jpath :: "string list \<Rightarrow> json \<Rightarrow> json option" where
  "jpath [] j = Some j"
| "jpath (k # ks) j = (case jget k j of None \<Rightarrow> None | Some v \<Rightarrow> jpath ks v)"

section \<open>Requests\<close>

text \<open>
  What a handler reads from the request: the method, the query parameters, and the
  outcome of \<open>request.json\<close>, which is the parsed body (\<open>JNull\<close> when there is none) or
  an exception of the framework.
\<close>

record request =
  req_method :: string
  req_args :: "(string \<times> string) list"
  req_json :: "py_error + json"

definition args_get :: "request \<Rightarrow> string \<Rightarrow> string \<Rightarrow> string" where
  "args_get req k dflt = (case map_of (req_args req) k of None \<Rightarrow> dflt | Some v \<Rightarrow> v)"

section \<open>Dates and times\<close>

record datetime =
  dt_year :: nat
  dt_month :: nat
  dt_day :: nat
  dt_hour :: nat
  dt_minute :: nat
  dt_second :: nat
  dt_micro :: nat

definition is_leap :: "nat \<Rightarrow> bool" where
  "is_leap y = (y mod 4 = 0 \<and> (y mod 100 \<noteq> 0 \<or> y mod 400 = 0))"

definition days_in_month :: "nat \<Rightarrow> nat \<Rightarrow> nat" where
  "days_in_month y m =
     (if m = 2 then (if is_leap y then 29 else 28)
      else if m = 4 \<or> m = 6 \<or> m = 9 \<or> m = 11 then 30 else 31)"

definition valid_datetime :: "datetime \<Rightarrow> bool" where
  "valid_datetime t =
     (1 \<le> dt_year t \<and> dt_year t \<le> 9999 \<and> 1 \<le> dt_month t \<and> dt_month t \<le> 12 \<and>
      1 \<le> dt_day t \<and> dt_day t \<le> days_in_month (dt_year t) (dt_month t) \<and>
      dt_hour t < 24 \<and> dt_minute t < 60 \<and> dt_second t < 60 \<and> dt_micro t < 1000000)"

definition next_day :: "datetime \<Rightarrow> datetime" where
  "next_day t =
     (if dt_day t < days_in_month (dt_year t) (dt_month t) then t\<lparr>dt_day := dt_day t + 1\<rparr>
      else if dt_month t < 12 then t\<lparr>dt_month := dt_month t + 1, dt_day := 1\<rparr>
      else t\<lparr>dt_year := dt_year t + 1, dt_month := 1, dt_day := 1\<rparr>)"

definition prev_day :: "datetime \<Rightarrow> datetime" where
  "prev_day t =
     (if 1 < dt_day t then t\<lparr>dt_day := dt_day t - 1\<rparr>
      else if 1 < dt_month t
        then t\<lparr>dt_month := dt_month t - 1, dt_day := days_in_month (dt_year t) (dt_month t - 1)\<rparr>
      else t\<lparr>dt_year := dt_year t - 1, dt_month := 12, dt_day := 31\<rparr>)"

text \<open>
  \<open>t + timedelta(days=n)\<close> and \<open>t - timedelta(days=n)\<close>: the time of day stays, the date
  moves by \<open>n\<close> days, and a result outside the years 1 to 9999 raises \<open>OverflowError\<close>.
\<close>

definition add_days :: "datetime \<Rightarrow> nat \<Rightarrow> py_error + datetime" where
  "add_days t n = (let r = (next_day ^^ n) t in if 9999 < dt_year r then Inl OverflowError else Inr r)"

definition sub_days :: "datetime \<Rightarrow> nat \<Rightarrow> py_error + datetime" where
  "sub_days t n = (let r = (prev_day ^^ n) t in if dt_year r < 1 then Inl OverflowError else Inr r)"

text \<open>The order of calendar dates (the time of day is ignored).\<close>

definition date_lt :: "datetime \<Rightarrow> datetime \<Rightarrow> bool" where
  "date_lt a b =
     (dt_year a < dt_year b \<or>
      dt_year a = dt_year b \<and>
        (dt_month a < dt_month b \<or> dt_month a = dt_month b \<and> dt_day a < dt_day b))"

definition same_date :: "datetime \<Rightarrow> datetime \<Rightarrow> bool" where
  "same_date a b = (dt_year a = dt_year b \<and> dt_month a = dt_month b \<and> dt_day a = dt_day b)"

definition date_le :: "datetime \<Rightarrow> datetime \<Rightarrow> bool" where
  "date_le a b = (date_lt a b \<or> same_date a b)"

text \<open>\<open>strftime("%Y-%m-%d")\<close>, \<open>strftime("%Y-%m-%d %H:%M:%S")\<close> and \<open>isoformat()\<close>.\<close>

definition fmt_date :: "datetime \<Rightarrow> string" where
  "fmt_date t = pad4 (dt_year t) @ ''-'' @ pad2 (dt_month t) @ ''-'' @ pad2 (dt_day t)"

definition fmt_time :: "datetime \<Rightarrow> string" where
  "fmt_time t = pad2 (dt_hour t) @ '':'' @ pad2 (dt_minute t) @ '':'' @ pad2 (dt_second t)"

definition fmt_datetime :: "datetime \<Rightarrow> string" where
  "fmt_datetime t = fmt_date t @ '' '' @ fmt_time t"

definition isoformat :: "datetime \<Rightarrow> string" where
  "isoformat t = fmt_date t @ ''T'' @ fmt_time t @
     (if dt_micro t = 0 then [] else ''.'' @ pad6 (dt_micro t))"

text \<open>
  The clock: \<open>clock k\<close> is what the \<open>k\<close>-th call of \<open>datetime.now()\<close> made while one
  request is handled returns (counting from 0).
\<close>

type_synonym clock = "nat \<Rightarrow> datetime"

definition get_season :: "datetime \<Rightarrow> string" where
  "get_season now =
     (let month = dt_month now in
      if month \<in> set [12, 1, 2] then ''Winter''
      else if month \<in> set [3, 4, 5] then ''Spring''
      else if month \<in> set [6, 7, 8] then ''Summer''
      else ''Autumn'')"

section \<open>The random source\<close>

text \<open>
  Every call of the \<open>random\<close> module is a parameter of the handler that makes it: the
  value the call returned. \<open>random.choice(xs)\<close> is given by the index it picked.
\<close>

definition choice :: "'a list \<Rightarrow> nat \<Rightarrow> 'a" where
  "choice xs i = xs ! i"

record analyze_rand =
  ar_name :: int
  ar_ndvi :: rat
  ar_crop :: nat
  ar_area :: rat
  ar_pixels :: int
  ar_cloud :: int
  ar_rain :: int
  ar_temp :: int
  ar_humid :: int
  ar_cond :: nat

text \<open>
  The contract of the library for the draws of the analysis: \<open>uniform(a, b)\<close> and
  \<open>randint(a, b)\<close> return a value between \<open>a\<close> and \<open>b\<close>, \<open>choice\<close> picks an index
  of the list.
\<close>

definition analyze_rand_ok :: "analyze_rand \<Rightarrow> bool" where
  "analyze_rand_ok r =
     (1000 \<le> ar_name r \<and> ar_name r \<le> 9999 \<and>
      fl (25/100) \<le> ar_ndvi r \<and> ar_ndvi r \<le> fl (85/100) \<and>
      ar_crop r < 6 \<and>
      5 \<le> ar_area r \<and> ar_area r \<le> 50 \<and>
      100000 \<le> ar_pixels r \<and> ar_pixels r \<le> 300000 \<and>
      0 \<le> ar_cloud r \<and> ar_cloud r \<le> 20 \<and>
      0 \<le> ar_rain r \<and> ar_rain r \<le> 14 \<and>
      20 \<le> ar_temp r \<and> ar_temp r \<le> 35 \<and>
      40 \<le> ar_humid r \<and> ar_humid r \<le> 85 \<and>
      ar_cond r < 3)"

record weather_rand =
  wr_temperature :: rat
  wr_humidity :: rat
  wr_precipitation :: rat
  wr_wind_speed :: rat
  wr_wind_direction :: nat
  wr_condition :: nat
  wr_pressure :: rat
  wr_visibility :: int
  wr_high0 :: int
  wr_low0 :: int
  wr_rain0 :: int
  wr_wind0 :: int
  wr_high1 :: int
  wr_low1 :: int
  wr_condition1 :: nat
  wr_rain1 :: int
  wr_wind1 :: int
  wr_high2 :: int
  wr_low2 :: int
  wr_rain2 :: int
  wr_wind2 :: int

text \<open>The four draws of one iteration of the history loop; the first three are \<open>random.random()\<close>.\<close>

record entry_rand =
  er_ndvi :: rat
  er_rain :: rat
  er_temp :: rat
  er_activity :: nat

text \<open>
  The contract of the library for the draws of the history loop: \<open>random.random()\<close> returns
  a float in \<open>[0, 1)\<close>, \<open>choice\<close> picks an index of the list.
\<close>

definition history_rand_ok :: "(nat \<Rightarrow> entry_rand) \<Rightarrow> bool" where
  "history_rand_ok rnd =
     list_all (\<lambda>i. 0 \<le> er_ndvi (rnd i) \<and> er_ndvi (rnd i) < 1 \<and>
                    0 \<le> er_rain (rnd i) \<and> er_rain (rnd i) < 1 \<and>
                    0 \<le> er_temp (rnd i) \<and> er_temp (rnd i) < 1 \<and>
                    er_activity (rnd i) < 5) [0..<8]"

section \<open>The handlers\<close>

subsection \<open>Informational handlers\<close>

definition home :: "clock \<Rightarrow> json \<times> nat" where
  "home clock =
     (JObj [
        (''status'', JStr ''success''),
        (''message'', JStr (emoji_check @ '' EOSDA Backend is running in MOCK MODE'')),
        (''time'', JStr (fmt_datetime (clock 0))),
        (''mode'', JStr ''mock_data''),
        (''note'', JStr ''Using simulated data. Perfect for testing!''),
        (''endpoints'', JObj [
           (''GET /'', JStr ''This info page''),
           (''GET /test-satellite'', JStr ''Test connection''),
           (''POST /analyze-field'', JStr ''Analyze field (main function)''),
           (''GET /weather'', JStr ''Get weather data''),
           (''GET /field-history'', JStr ''Get field history''),
           (''GET /health'', JStr ''Health check'')])], 200)"

definition test_satellite :: "clock \<Rightarrow> json \<times> nat" where
  "test_satellite clock =
     (JObj [
        (''status'', JStr ''success''),
        (''message'', JStr (emoji_check @ '' Backend connected successfully!'')),
        (''mode'', JStr ''mock_mode''),
        (''note'', JStr ''Using simulated satellite data - perfect for testing''),
        (''timestamp'', JStr (isoformat (clock 0))),
        (''next_step'', JStr (''Draw a field and click 'Analyze with Satellite'' @ [CHR 0x27]))], 200)"

definition health_check :: "clock \<Rightarrow> json \<times> nat" where
  "health_check clock =
     (JObj [
        (''status'', JStr ''healthy''),
        (''service'', JStr ''eosda-backend-mock''),
        (''timestamp'', JStr (isoformat (clock 0))),
        (''version'', JStr ''1.0.0''),
        (''uptime'', JStr ''Active'')], 200)"

definition not_found :: "json \<times> nat" where
  "not_found =
     (JObj [
        (''status'', JStr ''error''),
        (''message'', JStr ''Endpoint not found''),
        (''available_endpoints'', JArr [
           JStr ''GET /'',
           JStr ''GET /test-satellite'',
           JStr ''POST /analyze-field'',
           JStr ''GET /weather'',
           JStr ''GET /field-history'',
           JStr ''GET /health''])], 404)"

text \<open>The 500 handler: \<open>debug\<close> is \<open>app.debug\<close>, \<open>err\<close> is \<open>str(error)\<close>.\<close>

definition server_error :: "bool \<Rightarrow> string \<Rightarrow> json \<times> nat" where
  "server_error debug err =
     (JObj [
        (''status'', JStr ''error''),
        (''message'', JStr ''Internal server error''),
        (''detail'', JStr (if debug then err else ''Contact administrator''))], 500)"

subsection \<open>Field analysis\<close>

definition crop_types :: "string list" where
  "crop_types = [''Wheat'', ''Rice'', ''Corn'', ''Cotton'', ''Soybean'', ''Sugarcane'']"

definition recs_excellent :: "string list" where
  "recs_excellent = [
     ''Excellent crop health! Maintain current practices.'',
     ''Optimal growth conditions detected.'',
     ''Consider harvesting in 2-3 weeks.'',
     ''Monitor soil moisture for consistency.'']"

definition recs_good :: "string list" where
  "recs_good = [
     ''Good vegetation health observed.'',
     ''Consider light fertilization in 10-14 days.'',
     ''Maintain current irrigation schedule.'',
     ''Check for early signs of pest activity.'']"

definition recs_moderate :: "string list" where
  "recs_moderate = [
     ''Moderate stress detected in some areas.'',
     ''Increase irrigation frequency by 20%.'',
     ''Test soil for nutrient deficiencies.'',
     ''Consider adding organic compost.'']"

definition recs_poor :: "string list" where
  "recs_poor = [
     emoji_warning @ '' Immediate attention required!'',
     ''Severe vegetation stress detected.'',
     ''Increase irrigation immediately.'',
     ''Conduct comprehensive soil testing.'',
     ''Consult agricultural expert if condition persists.'']"

text \<open>The recommendation chain of \<open>analyze_field\<close> (the second \<open>if\<close>/\<open>elif\<close> on \<open>ndvi\<close>).\<close>

definition recommendations :: "pyfloat \<Rightarrow> string list" where
  "recommendations ndvi =
     (if fgt ndvi c07 then recs_excellent
      else if fgt ndvi c05 then recs_good
      else if fgt ndvi c03 then recs_moderate
      else recs_poor)"

text \<open>\<open>max(a, b)\<close> and \<open>min(a, b)\<close> of two floats: the first argument unless the second beats it.\<close>

definition pymax :: "rat \<Rightarrow> rat \<Rightarrow> rat" where
  "pymax a b = (if a < b then b else a)"

definition pymin :: "rat \<Rightarrow> rat \<Rightarrow> rat" where
  "pymin a b = (if b < a then b else a)"

definition missing_bounds :: "json \<times> nat" where
  "missing_bounds =
     (JObj [(''status'', JStr ''error''), (''message'', JStr ''No field bounds provided'')], 400)"

definition analysis_response :: "clock \<Rightarrow> analyze_rand \<Rightarrow> json \<Rightarrow> json" where
  "analysis_response clock rnd field_name =
     (let ndvi = pyround (ar_ndvi rnd) 2;
          (ndvi_color, ndvi_status, ndvi_class) = get_ndvi_color (Fin ndvi);
          selected_crop = choice crop_types (ar_crop rnd);
          field_area = pyround (ar_area rnd) 1;
          health_score = pyround (fmul ndvi 100) 1
      in JObj [
        (''status'', JStr ''success''),
        (''data_type'', JStr ''mock''),
        (''note'', JStr ''Using simulated data. Real satellite data requires Sentinel Hub API keys.''),
        (''field_info'', JObj [
           (''name'', field_name),
           (''area_acres'', JFloat (Fin field_area)),
           (''crop_type'', JStr selected_crop),
           (''analysis_date'', JStr (fmt_datetime (clock 0))),
           (''season'', JStr (get_season (clock 1)))]),
        (''ndvi_analysis'', JObj [
           (''value'', JFloat (Fin ndvi)),
           (''color'', JStr ndvi_color),
           (''status'', JStr ndvi_status),
           (''class'', JStr ndvi_class),
           (''interpretation'', JStr (get_ndvi_interpretation (Fin ndvi)))]),
        (''statistics'', JObj [
           (''mean_ndvi'', JFloat (Fin ndvi)),
           (''min_ndvi'', JFloat (Fin (pyround (pymax (fl (1/10)) (fsub ndvi (fl (2/10)))) 2))),
           (''max_ndvi'', JFloat (Fin (pyround (pymin 1 (fadd ndvi (fl (15/100)))) 2))),
           (''health_score'', JFloat (Fin health_score)),
           (''pixels_analyzed'', JInt (ar_pixels rnd)),
           (''cloud_coverage'', JStr (str_int (ar_cloud rnd) @ ''%'')),
           (''resolution'', JStr ''10m'')]),
        (''recommendations'', JArr (map JStr (recommendations (Fin ndvi)))),
        (''weather_impact'', JObj [
           (''last_rainfall'', JStr (str_int (ar_rain rnd) @ '' days ago'')),
           (''temperature'', JStr (str_int (ar_temp rnd) @ degree_sign @ ''C'')),
           (''humidity'', JStr (str_int (ar_humid rnd) @ ''%'')),
           (''condition'', JStr (choice [''Sunny'', ''Partly Cloudy'', ''Clear''] (ar_cond rnd)))]),
        (''next_steps'', JArr [
           JStr ''Re-analyze in 7 days to track progress'',
           JStr ''Compare with historical data'',
           JStr ''Share report with farm manager''])])"

text \<open>
  The body of the \<open>try\<close> block: \<open>Inl\<close> is an exception raised inside it. On a body that
  passes the test on \<open>bounds\<close>, \<open>data.get\<close> exists on dictionaries only.
\<close>

definition analyze_try :: "clock \<Rightarrow> analyze_rand \<Rightarrow> request \<Rightarrow> py_error + json \<times> nat" where
  "analyze_try clock rnd req =
     (case req_json req of
        Inl e \<Rightarrow> Inl e
      | Inr data \<Rightarrow>
          if \<not> truthy data then Inr missing_bounds
          else (case py_in ''bounds'' data of
                  Inl e \<Rightarrow> Inl e
                | Inr present \<Rightarrow>
                    if \<not> present then Inr missing_bounds
                    else (case data of
                            JObj kvs \<Rightarrow>
                              (let field_name =
                                     dict_get ''name'' kvs (JStr (''Field_'' @ str_int (ar_name rnd)));
                                   bounds = dict_get ''bounds'' kvs (JArr [])
                               in if slice_ok bounds
                                  then Inr (analysis_response clock rnd field_name, 200)
                                  else Inl TypeError)
                          | _ \<Rightarrow> Inl AttributeError)))"

text \<open>\<open>exc_str e\<close> is \<open>str(e)\<close>, the text of the exception.\<close>

definition analyze_field ::
  "(py_error \<Rightarrow> string) \<Rightarrow> clock \<Rightarrow> analyze_rand \<Rightarrow> request \<Rightarrow> json \<times> nat" where
  "analyze_field exc_str clock rnd req =
     (if req_method req = ''OPTIONS'' then (JObj [(''status'', JStr ''ok'')], 200)
      else (case analyze_try clock rnd req of
              Inr r \<Rightarrow> r
            | Inl e \<Rightarrow>
                (JObj [(''status'', JStr ''error''),
                       (''message'', JStr (''Analysis error: '' @ exc_str e))], 500)))"

subsection \<open>Weather\<close>

definition weather :: "clock \<Rightarrow> weather_rand \<Rightarrow> request \<Rightarrow> py_error + json \<times> nat" where
  "weather clock rnd req =
     (let lat = args_get req ''lat'' ''23.2599'';
          lng = args_get req ''lng'' ''77.4126''
      in case add_days (clock 1) 1 of
           Inl e \<Rightarrow> Inl e
         | Inr tomorrow \<Rightarrow>
        (case add_days (clock 2) 2 of
           Inl e \<Rightarrow> Inl e
         | Inr day3 \<Rightarrow>
        Inr (JObj [
          (''status'', JStr ''success''),
          (''location'', JObj [(''lat'', JStr lat), (''lng'', JStr lng)]),
          (''current'', JObj [
             (''temperature'', JFloat (Fin (pyround (wr_temperature rnd) 1))),
             (''humidity'', JFloat (Fin (pyround (wr_humidity rnd) 1))),
             (''precipitation'', JFloat (Fin (pyround (wr_precipitation rnd) 1))),
             (''wind_speed'', JFloat (Fin (pyround (wr_wind_speed rnd) 1))),
             (''wind_direction'', JStr (choice [''N'', ''NE'', ''E'', ''SE'', ''S'', ''SW'', ''W'', ''NW'']
                                         (wr_wind_direction rnd))),
             (''condition'', JStr (choice [''Sunny'', ''Partly Cloudy'', ''Clear'', ''Mostly Sunny'']
                                    (wr_condition rnd))),
             (''pressure'', JFloat (Fin (pyround (wr_pressure rnd) 1))),
             (''visibility'', JStr (str_int (wr_visibility rnd) @ '' km''))]),
          (''forecast'', JArr [
             JObj [
               (''day'', JStr ''Today''),
               (''date'', JStr (fmt_date (clock 0))),
               (''high'', JInt (wr_high0 rnd)),
               (''low'', JInt (wr_low0 rnd)),
               (''condition'', JStr ''Sunny''),
               (''rain_chance'', JStr (str_int (wr_rain0 rnd) @ ''%'')),
               (''wind'', JStr (str_int (wr_wind0 rnd) @ '' km/h''))],
             JObj [
               (''day'', JStr ''Tomorrow''),
               (''date'', JStr (fmt_date tomorrow)),
               (''high'', JInt (wr_high1 rnd)),
               (''low'', JInt (wr_low1 rnd)),
               (''condition'', JStr (choice [''Partly Cloudy'', ''Clear''] (wr_condition1 rnd))),
               (''rain_chance'', JStr (str_int (wr_rain1 rnd) @ ''%'')),
               (''wind'', JStr (str_int (wr_wind1 rnd) @ '' km/h''))],
             JObj [
               (''day'', JStr ''Day 3''),
               (''date'', JStr (fmt_date day3)),
               (''high'', JInt (wr_high2 rnd)),
               (''low'', JInt (wr_low2 rnd)),
               (''condition'', JStr ''Clear''),
               (''rain_chance'', JStr (str_int (wr_rain2 rnd) @ ''%'')),
               (''wind'', JStr (str_int (wr_wind2 rnd) @ '' km/h''))]]),
          (''agricultural_advice'', JArr [
             JStr ''Good conditions for field work'',
             JStr ''Ideal for irrigation activities'',
             JStr ''Monitor soil moisture levels'',
             JStr ''Favorable for fertilizer application''])], 200)))"

subsection \<open>Field history\<close>

record hist_entry =
  he_date :: string
  he_ndvi :: rat
  he_rainfall_mm :: rat
  he_temperature_avg :: rat
  he_health :: string
  he_activity :: string

definition entry_json :: "hist_entry \<Rightarrow> json" where
  "entry_json h =
     JObj [
       (''date'', JStr (he_date h)),
       (''ndvi'', JFloat (Fin (he_ndvi h))),
       (''rainfall_mm'', JFloat (Fin (he_rainfall_mm h))),
       (''temperature_avg'', JFloat (Fin (he_temperature_avg h))),
       (''health'', JStr (he_health h)),
       (''activity'', JStr (he_activity h))]"

text \<open>The dictionary one iteration of the loop appends, from its date and its four draws.\<close>

definition make_entry :: "datetime \<Rightarrow> entry_rand \<Rightarrow> hist_entry" where
  "make_entry date r =
     (let ndvi = fadd (fl (3/10)) (fmul (er_ndvi r) (fl (5/10)))
      in \<lparr>he_date = fmt_date date,
          he_ndvi = pyround ndvi 2,
          he_rainfall_mm = pyround (fmul (er_rain r) 20) 1,
          he_temperature_avg = pyround (fadd 22 (fmul (er_temp r) 10)) 1,
          he_health = (if fgt (Fin ndvi) c05 then ''Good''
                       else if fgt (Fin ndvi) c03 then ''Moderate'' else ''Poor''),
          he_activity = choice [''Irrigation'', ''Fertilization'', ''Weeding'', ''Monitoring'', ''Harvest'']
                          (er_activity r)\<rparr>)"

text \<open>The loop \<open>for i in range(8)\<close>, over the remaining indices and the list built so far.\<close>

fun history_loop ::
  "datetime \<Rightarrow> (nat \<Rightarrow> entry_rand) \<Rightarrow> nat list \<Rightarrow> hist_entry list \<Rightarrow> py_error + hist_entry list"
where
  "history_loop base_date rnd [] history = Inr history"
| "history_loop base_date rnd (i # rest) history =
     (case add_days base_date (i * 12) of
        Inl e \<Rightarrow> Inl e
      | Inr date \<Rightarrow> history_loop base_date rnd rest (history @ [make_entry date (rnd i)]))"

text \<open>
  The built-in \<open>sum\<close> on floats depends on the interpreter, which the repository does not
  fix. Before Python 3.12 it adds from the left starting at 0, each addition rounded. From
  3.12 on, the first float is added to the start value 0 in the same way, and every
  further float \<open>x\<close> goes through a step of Neumaier's compensated summation on the
  running sum \<open>f\<close> and the compensation \<open>c\<close>:
  \<open>t = f + x; c += (f - t) + x if fabs(f) >= fabs(x) else (x - t) + f; f = t\<close>;
  at the end a compensation other than zero is added to the sum.
\<close>

datatype sum_algorithm = Plain_Sum | Neumaier_Sum

definition neumaier_step :: "rat \<times> rat \<Rightarrow> rat \<Rightarrow> rat \<times> rat" where
  "neumaier_step fc x =
     (let f = fst fc; c = snd fc; t = fadd f x
      in (t, if \<bar>x\<bar> \<le> \<bar>f\<bar> then fadd c (fadd (fsub f t) x)
             else fadd c (fadd (fsub x t) f)))"

fun py_sum :: "sum_algorithm \<Rightarrow> rat list \<Rightarrow> rat" where
  "py_sum Plain_Sum xs = foldl fadd 0 xs"
| "py_sum Neumaier_Sum [] = 0"
| "py_sum Neumaier_Sum (x # xs) =
     (let fc = foldl neumaier_step (fadd 0 x, 0) xs
      in if snd fc \<noteq> 0 then fadd (fst fc) (snd fc) else fst fc)"

text \<open>\<open>s / n\<close> on floats is the rounded quotient.\<close>

definition fdiv :: "rat \<Rightarrow> rat \<Rightarrow> rat" where
  "fdiv a b = fl (a / b)"

definition trend_of :: "hist_entry list \<Rightarrow> string" where
  "trend_of history =
     (if 2 \<le> length history
      then (if he_ndvi (hd history) < he_ndvi (last history) then ''improving'' else ''stable'')
      else ''insufficient data'')"

text \<open>The entries of the response: the loop, then the sort by the \<open>date\<close> key.\<close>

definition history_entries :: "clock \<Rightarrow> (nat \<Rightarrow> entry_rand) \<Rightarrow> py_error + hist_entry list" where
  "history_entries clock rnd =
     (case sub_days (clock 0) 90 of
        Inl e \<Rightarrow> Inl e
      | Inr base_date \<Rightarrow>
          (case history_loop base_date rnd [0..<8] [] of
             Inl e \<Rightarrow> Inl e
           | Inr history \<Rightarrow> Inr (sort_key he_date history)))"

definition field_history ::
  "sum_algorithm \<Rightarrow> clock \<Rightarrow> (nat \<Rightarrow> entry_rand) \<Rightarrow> request \<Rightarrow> py_error + json \<times> nat" where
  "field_history sm clock rnd req =
     (let field_id = args_get req ''field_id'' ''1''
      in case history_entries clock rnd of
           Inl e \<Rightarrow> Inl e
         | Inr history \<Rightarrow>
             if length history = 0 then Inl ZeroDivisionError
             else Inr (JObj [
               (''status'', JStr ''success''),
               (''field_id'', JStr field_id),
               (''field_name'', JStr (''Agricultural Field #'' @ field_id)),
               (''total_entries'', JInt (int (length history))),
               (''history'', JArr (map entry_json history)),
               (''trend'', JStr (trend_of history)),
               (''average_ndvi'',
                  JFloat (Fin (pyround (fdiv (py_sum sm (map he_ndvi history)) (of_nat (length history))) 2))),
               (''season'', JStr (get_season (clock 1))),
               (''note'', JStr ''Simulated historical data for demonstration'')], 200))"

subsection \<open>Reading a response\<close>

text \<open>
  The \<open>ndvi\<close> fields of the entries of a history response and the \<open>date\<close> fields of the
  entries of a forecast, in the order of the list.
\<close>

fun ndvi_of :: "json \<Rightarrow> rat list" where
  "ndvi_of e = (case jget ''ndvi'' e of Some (JFloat (Fin x)) \<Rightarrow> [x] | _ \<Rightarrow> [])"

definition ndvi_fields :: "json \<Rightarrow> rat list" where
  "ndvi_fields resp =
     (case jget ''history'' resp of Some (JArr es) \<Rightarrow> concat (map ndvi_of es) | _ \<Rightarrow> [])"



text \<open>
  The arithmetic mean of a list of numbers in exact arithmetic: the yardstick of the
  specification for \<open>average_ndvi\<close>. The mean rounded to 2 decimals is
  \<open>pyround (arithmetic_mean xs) 2\<close>.
\<close>

definition arithmetic_mean :: "rat list \<Rightarrow> rat" where
  "arithmetic_mean xs = sum_list xs / of_nat (length xs)"

subsection \<open>Every handler\<close>

text \<open>
  The calls the framework makes into the application: one per route, and the two error
  handlers. \<open>ServerError s\<close> is the 500 handler called on an error whose text is \<open>s\<close>.
\<close>

datatype call =
    Home
  | TestSatellite
  | AnalyzeField request
  | Weather request
  | FieldHistory request
  | HealthCheck
  | NotFound
  | ServerError string

record world =
  w_clock :: clock
  w_exc_str :: "py_error \<Rightarrow> string"
  w_debug :: bool
  w_analyze :: analyze_rand
  w_weather :: weather_rand
  w_history :: "nat \<Rightarrow> entry_rand"
  w_sum :: sum_algorithm

text \<open>The JSON response and status code of a call; \<open>Inl\<close> is an exception the handler lets escape.\<close>

fun respond :: "world \<Rightarrow> call \<Rightarrow> py_error + json \<times> nat" where
  "respond w Home = Inr (home (w_clock w))"
| "respond w TestSatellite = Inr (test_satellite (w_clock w))"
| "respond w (AnalyzeField req) = Inr (analyze_field (w_exc_str w) (w_clock w) (w_analyze w) req)"
| "respond w (Weather req) = weather (w_clock w) (w_weather w) req"
| "respond w (FieldHistory req) = field_history (w_sum w) (w_clock w) (w_history w) req"
| "respond w HealthCheck = Inr (health_check (w_clock w))"
| "respond w NotFound = Inr not_found"
| "respond w (ServerError s) = Inr (server_error (w_debug w) s)"

section \<open>Sample inputs\<close>

text \<open>A clock that reads 2026-11-04 07:23:05 at every call.\<close>

definition sample_now :: datetime where
  "sample_now = \<lparr>dt_year = 2026, dt_month = 11, dt_day = 4, dt_hour = 7, dt_minute = 23,
                   dt_second = 5, dt_micro = 0\<rparr>"

definition sample_clock :: clock where
  "sample_clock k = sample_now"


definition sample_exc_str :: "py_error \<Rightarrow> string" where
  "sample_exc_str e =
     (case e of TypeError \<Rightarrow> ''TypeError'' | AttributeError \<Rightarrow> ''AttributeError''
      | OverflowError \<Rightarrow> ''OverflowError'' | ZeroDivisionError \<Rightarrow> ''ZeroDivisionError''
      | RequestError \<Rightarrow> ''RequestError'')"

definition sample_analyze_rand :: analyze_rand where
  "sample_analyze_rand =
     \<lparr>ar_name = 1234, ar_ndvi = 5/8, ar_crop = 2, ar_area = 25/2, ar_pixels = 200000,
      ar_cloud = 7, ar_rain = 3, ar_temp = 28, ar_humid = 60, ar_cond = 1\<rparr>"

definition sample_weather_rand :: weather_rand where
  "sample_weather_rand =
     \<lparr>wr_temperature = 30, wr_humidity = 55, wr_precipitation = 1, wr_wind_speed = 10,
      wr_wind_direction = 3, wr_condition = 0, wr_pressure = 1015, wr_visibility = 10,
      wr_high0 = 30, wr_low0 = 22, wr_rain0 = 5, wr_wind0 = 8,
      wr_high1 = 29, wr_low1 = 21, wr_condition1 = 1, wr_rain1 = 15, wr_wind1 = 9,
      wr_high2 = 28, wr_low2 = 20, wr_rain2 = 4, wr_wind2 = 6\<rparr>"

text \<open>
  History draws: \<open>random.random()\<close> returns 13/32 for the NDVI of every iteration, so the
  unrounded NDVI is \<open>0.3 + 0.203125\<close>.
\<close>

definition sample_history_rand :: "nat \<Rightarrow> entry_rand" where
  "sample_history_rand i = \<lparr>er_ndvi = 13/32, er_rain = 1/4, er_temp = 1/2, er_activity = 3\<rparr>"

text \<open>
  History draws that give six entries with the \<open>ndvi\<close> field \<open>0.3\<close> and two with \<open>0.36\<close>:
  \<open>random.random()\<close> returns 0 in the first six iterations and 1/8 in the last two.
\<close>

definition low_history_rand :: "nat \<Rightarrow> entry_rand" where
  "low_history_rand i =
     \<lparr>er_ndvi = (if i < 6 then 0 else 1/8), er_rain = 1/4, er_temp = 1/2, er_activity = 3\<rparr>"

definition sample_world :: world where
  "sample_world =
     \<lparr>w_clock = sample_clock, w_exc_str = sample_exc_str, w_debug = True,
      w_analyze = sample_analyze_rand, w_weather = sample_weather_rand,
      w_history = sample_history_rand, w_sum = Plain_Sum\<rparr>"

text \<open>A POST with the square of the specification as bounds, one with the body \<open>5\<close>, one with no body, and a GET without parameters.\<close>

definition square_bounds :: json where
  "square_bounds = JArr [JArr [JInt 0, JInt 0], JArr [JInt 0, JInt 1], JArr [JInt 1, JInt 1],
                         JArr [JInt 1, JInt 0]]"

definition post_square :: request where
  "post_square = \<lparr>req_method = ''POST'', req_args = [], req_json = Inr (JObj [(''bounds'', square_bounds)])\<rparr>"

definition post_name_only :: request where
  "post_name_only = \<lparr>req_method = ''POST'', req_args = [], req_json = Inr (JObj [(''name'', JStr ''North'')])\<rparr>"

definition post_five :: request where
  "post_five = \<lparr>req_method = ''POST'', req_args = [], req_json = Inr (JInt 5)\<rparr>"

definition post_nothing :: request where
  "post_nothing = \<lparr>req_method = ''POST'', req_args = [], req_json = Inr JNull\<rparr>"

definition get_plain :: request where
  "get_plain = \<lparr>req_method = ''GET'', req_args = [], req_json = Inr JNull\<rparr>"

definition get_field_42 :: request where
  "get_field_42 = \<lparr>req_method = ''GET'', req_args = [(''field_id'', ''42'')], req_json = Inr JNull\<rparr>"

section \<open>Facts about floats\<close>

lemma c07_val: "c07 = Fin (3152519739159347 / 4503599627370496)"
  unfolding c07_def by code_simp

lemma c05_val: "c05 = Fin (1 / 2)"
  unfolding c05_def by code_simp

lemma c03_val: "c03 = Fin (5404319552844595 / 18014398509481984)"
  unfolding c03_def by code_simp

lemma c01_val: "c01 = Fin (3602879701896397 / 36028797018963968)"
  unfolding c01_def by code_simp

lemmas thresholds = c07_val c05_val c03_val c01_val

lemma bitlen_bounds:
  "0 < n \<Longrightarrow> 1 \<le> bitlen n \<and> 2 ^ nat (bitlen n - 1) \<le> n \<and> n < 2 ^ nat (bitlen n)"
proof (induction n rule: bitlen.induct)
  case (1 n)
  show ?case
  proof (cases "n = 1")
    case True
    have "bitlen 1 = 1" by (simp add: bitlen.simps)
    with True show ?thesis by simp
  next
    case False
    with "1.prems" have pos: "0 < n div 2" by simp
    from "1.prems" have n0: "\<not> n \<le> 0" by simp
    from "1.IH" [OF n0 pos] have l1: "1 \<le> bitlen (n div 2)"
      and lo: "2 ^ nat (bitlen (n div 2) - 1) \<le> n div 2"
      and hi: "n div 2 < 2 ^ nat (bitlen (n div 2))" by simp_all
    have bl: "bitlen n = 1 + bitlen (n div 2)"
      using n0 by (subst bitlen.simps) simp
    from l1 have e1: "nat (bitlen n - 1) = Suc (nat (bitlen (n div 2) - 1))"
      unfolding bl by simp
    from l1 have e2: "nat (bitlen n) = Suc (nat (bitlen (n div 2)))"
      unfolding bl by simp
    from lo have "2 ^ nat (bitlen n - 1) \<le> n" unfolding e1 by simp
    moreover from hi have "n < 2 ^ nat (bitlen n)" unfolding e2 by simp
    moreover from l1 have "1 \<le> bitlen n" unfolding bl by simp
    ultimately show ?thesis by simp
  qed
qed

lemma powi_nat: "0 \<le> l \<Longrightarrow> (2::rat) powi l = 2 ^ nat l"
  by (simp add: power_int_def)

lemma expo_bounds:
  assumes "q \<noteq> 0"
  shows "2 powi expo q \<le> \<bar>q\<bar> \<and> \<bar>q\<bar> < 2 powi (expo q + 1)"
proof -
  obtain a b where ab: "quotient_of \<bar>q\<bar> = (a, b)" by (cases "quotient_of \<bar>q\<bar>")
  then have bpos: "0 < b" by (rule quotient_of_denom_pos)
  from ab have q: "\<bar>q\<bar> = of_int a / of_int b" by (rule quotient_of_div)
  from assms have "0 < \<bar>q\<bar>" by simp
  with q bpos have apos: "0 < a" by (simp add: zero_less_divide_iff)
  define la where "la = bitlen a"
  define lb where "lb = bitlen b"
  from bitlen_bounds [OF apos] have la: "1 \<le> la" "2 ^ nat (la - 1) \<le> a" "a < 2 ^ nat la"
    by (simp_all add: la_def)
  from bitlen_bounds [OF bpos] have lb: "1 \<le> lb" "2 ^ nat (lb - 1) \<le> b" "b < 2 ^ nat lb"
    by (simp_all add: lb_def)
  have a_lo: "(2::rat) powi (la - 1) \<le> of_int a"
    using la by (simp add: powi_nat)
  have a_hi: "of_int a < (2::rat) powi la"
    using la by (simp add: powi_nat)
  have b_lo: "(2::rat) powi (lb - 1) \<le> of_int b"
    using lb by (simp add: powi_nat)
  have b_hi: "of_int b < (2::rat) powi lb"
    using lb by (simp add: powi_nat)
  have bq: "(0::rat) < of_int b" using bpos by simp
  have up: "\<bar>q\<bar> < 2 powi (la - lb + 1)"
  proof -
    have "of_int a < (2::rat) powi (la - lb + 1) * 2 powi (lb - 1)"
      using a_hi by (simp add: power_int_add [symmetric])
    also have "\<dots> \<le> 2 powi (la - lb + 1) * of_int b"
      using b_lo by (simp add: mult_left_mono)
    finally show ?thesis using bq by (simp add: q pos_divide_less_eq)
  qed
  have lo: "2 powi (la - lb - 1) \<le> \<bar>q\<bar>"
  proof -
    have "(2::rat) powi (la - lb - 1) * of_int b \<le> 2 powi (la - lb - 1) * 2 powi lb"
      using b_hi by (simp add: mult_left_mono)
    also have "\<dots> = 2 powi (la - 1)"
      by (simp add: power_int_add [symmetric])
    also have "\<dots> \<le> of_int a" by (rule a_lo)
    finally show ?thesis using bq by (simp add: q pos_le_divide_eq)
  qed
  have e: "expo q = (if 2 powi (la - lb) \<le> \<bar>q\<bar> then la - lb else la - lb - 1)"
    by (simp add: expo_def ab la_def lb_def Let_def)
  show ?thesis
  proof (cases "2 powi (la - lb) \<le> \<bar>q\<bar>")
    case True
    with e up show ?thesis by simp
  next
    case False
    with e lo show ?thesis by simp
  qed
qed

lemma expo_unique:
  assumes "2 powi e \<le> \<bar>q\<bar>" and "\<bar>q\<bar> < 2 powi (e + 1)"
  shows "expo q = e"
proof -
  have "(0::rat) < 2 powi e" by simp
  with assms(1) have "0 < \<bar>q\<bar>" by linarith
  then have "q \<noteq> 0" by auto
  from expo_bounds [OF this] have b: "2 powi expo q \<le> \<bar>q\<bar>" "\<bar>q\<bar> < 2 powi (expo q + 1)"
    by simp_all
  from assms(1) b(2) have "(2::rat) powi e < 2 powi (expo q + 1)" by simp
  then have 1: "e < expo q + 1"
    using power_int_increasing [of "expo q + 1" e "2::rat"] by (cases "e < expo q + 1") auto
  from b(1) assms(2) have "(2::rat) powi expo q < 2 powi (e + 1)" by simp
  then have 2: "expo q < e + 1"
    using power_int_increasing [of "e + 1" "expo q" "2::rat"] by (cases "expo q < e + 1") auto
  from 1 2 show ?thesis by simp
qed

lemma fl_binade:
  assumes "2 powi e \<le> \<bar>q\<bar>" and "\<bar>q\<bar> < 2 powi (e + 1)"
  shows "fl q = of_int (rhe (q / 2 powi (e - 52))) * 2 powi (e - 52)"
proof -
  have "(0::rat) < 2 powi e" by simp
  with assms(1) have "0 < \<bar>q\<bar>" by linarith
  then have "q \<noteq> 0" by auto
  then show ?thesis by (simp add: fl_def expo_unique [OF assms] Let_def)
qed

lemma fl_pos_binade:
  assumes "2 powi e \<le> q" and "q < 2 powi (e + 1)"
  shows "fl q = of_int (rhe (q * 2 powi (52 - e))) / 2 powi (52 - e)"
proof -
  have "(0::rat) < 2 powi e" by simp
  with assms(1) have "0 < q" by linarith
  then have a: "\<bar>q\<bar> = q" by simp
  have "fl q = of_int (rhe (q / 2 powi (e - 52))) * 2 powi (e - 52)"
    using assms by (intro fl_binade) (simp_all add: a)
  moreover have "(2::rat) powi (e - 52) = inverse (2 powi (52 - e))"
    by (simp flip: power_int_minus)
  ultimately show ?thesis by (simp add: divide_inverse)
qed

lemma fl_m5: "1/32 \<le> q \<Longrightarrow> q < 1/16 \<Longrightarrow> fl q = of_int (rhe (q * 2 ^ 57)) / 2 ^ 57"
proof -
  assume a: "1/32 \<le> q" "q < 1/16"
  have "(2::rat) powi (-5) = 1/32" "(2::rat) powi (-5 + 1) = 1/16" "(2::rat) powi (52 - (-5)) = 2 ^ 57"
    by (simp_all add: power_int_def power_divide)
  with fl_pos_binade [of "-5" q] a show ?thesis by simp
qed

lemma fl_m4: "1/16 \<le> q \<Longrightarrow> q < 1/8 \<Longrightarrow> fl q = of_int (rhe (q * 2 ^ 56)) / 2 ^ 56"
proof -
  assume a: "1/16 \<le> q" "q < 1/8"
  have "(2::rat) powi (-4) = 1/16" "(2::rat) powi (-4 + 1) = 1/8" "(2::rat) powi (52 - (-4)) = 2 ^ 56"
    by (simp_all add: power_int_def power_divide)
  with fl_pos_binade [of "-4" q] a show ?thesis by simp
qed

lemma fl_m3: "1/8 \<le> q \<Longrightarrow> q < 1/4 \<Longrightarrow> fl q = of_int (rhe (q * 2 ^ 55)) / 2 ^ 55"
proof -
  assume a: "1/8 \<le> q" "q < 1/4"
  have "(2::rat) powi (-3) = 1/8" "(2::rat) powi (-3 + 1) = 1/4" "(2::rat) powi (52 - (-3)) = 2 ^ 55"
    by (simp_all add: power_int_def power_divide)
  with fl_pos_binade [of "-3" q] a show ?thesis by simp
qed

lemma fl_m2: "1/4 \<le> q \<Longrightarrow> q < 1/2 \<Longrightarrow> fl q = of_int (rhe (q * 2 ^ 54)) / 2 ^ 54"
proof -
  assume a: "1/4 \<le> q" "q < 1/2"
  have "(2::rat) powi (-2) = 1/4" "(2::rat) powi (-2 + 1) = 1/2" "(2::rat) powi (52 - (-2)) = 2 ^ 54"
    by (simp_all add: power_int_def power_divide)
  with fl_pos_binade [of "-2" q] a show ?thesis by simp
qed

lemma fl_m1: "1/2 \<le> q \<Longrightarrow> q < 1 \<Longrightarrow> fl q = of_int (rhe (q * 2 ^ 53)) / 2 ^ 53"
proof -
  assume a: "1/2 \<le> q" "q < 1"
  have "(2::rat) powi (-1) = 1/2" "(2::rat) powi (-1 + 1) = 1" "(2::rat) powi (52 - (-1)) = 2 ^ 53"
    by (simp_all add: power_int_def power_divide)
  with fl_pos_binade [of "-1" q] a show ?thesis by simp
qed

lemma fl_0: "1 \<le> q \<Longrightarrow> q < 2 \<Longrightarrow> fl q = of_int (rhe (q * 2 ^ 52)) / 2 ^ 52"
proof -
  assume a: "1 \<le> q" "q < 2"
  have "(2::rat) powi 0 = 1" "(2::rat) powi (0 + 1) = 2" "(2::rat) powi (52 - 0) = 2 ^ 52"
    by (simp_all add: power_int_def power_divide)
  with fl_pos_binade [of 0 q] a show ?thesis by simp
qed

lemmas fl_eval = fl_m5 fl_m4 fl_m3 fl_m2 fl_m1 fl_0

lemma rhe_divide:
  assumes "0 < b"
  shows "rhe (of_int a / of_int b) =
    (if 2 * (a mod b) < b then a div b
     else if b < 2 * (a mod b) then a div b + 1
     else if even (a div b) then a div b else a div b + 1)"
proof -
  have f: "\<lfloor>(of_int a / of_int b :: rat)\<rfloor> = a div b"
    by (simp add: floor_divide_of_int_eq)
  have bq: "(0::rat) < of_int b" using assms by simp
  have "(of_int a :: rat) = of_int (a div b * b + a mod b)" by simp
  then have "(of_int a :: rat) = of_int (a div b) * of_int b + of_int (a mod b)"
    by (simp only: of_int_add of_int_mult)
  then have d: "(of_int a / of_int b :: rat) - of_int (a div b) = of_int (a mod b) / of_int b"
    using bq by (simp add: field_simps)
  have lt: "(of_int (a mod b) / of_int b :: rat) < 1/2 \<longleftrightarrow> 2 * (a mod b) < b"
  proof -
    have "(of_int (a mod b) / of_int b :: rat) < 1/2 \<longleftrightarrow> (of_int (2 * (a mod b)) :: rat) < of_int b"
      using bq by (simp add: field_simps)
    then show ?thesis by (simp only: of_int_less_iff)
  qed
  have gt: "1/2 < (of_int (a mod b) / of_int b :: rat) \<longleftrightarrow> b < 2 * (a mod b)"
  proof -
    have "1/2 < (of_int (a mod b) / of_int b :: rat) \<longleftrightarrow> (of_int b :: rat) < of_int (2 * (a mod b))"
      using bq by (simp add: field_simps)
    then show ?thesis by (simp only: of_int_less_iff)
  qed
  show ?thesis unfolding rhe_def Let_def f d lt gt by simp
qed

lemma rhe_numeral_divide:
  "rhe (numeral a / numeral b) =
    (if 2 * (numeral a mod numeral b) < (numeral b :: int) then numeral a div numeral b
     else if (numeral b :: int) < 2 * (numeral a mod numeral b) then numeral a div numeral b + 1
     else if even (numeral a div numeral b :: int) then numeral a div numeral b
     else numeral a div numeral b + 1)"
  using rhe_divide [of "numeral b" "numeral a"] by simp

lemma rhe_numeral: "rhe (numeral a) = numeral a"
  by (simp add: rhe_def)

lemma rhe_one: "rhe 1 = 1"
  by (simp add: rhe_def)

lemmas rhe_eval = rhe_numeral_divide rhe_numeral rhe_one

lemma rhe_floor: "rhe x = \<lfloor>x\<rfloor> \<or> rhe x = \<lfloor>x\<rfloor> + 1"
  by (auto simp: rhe_def Let_def)

lemma rhe_lower: "of_int a \<le> x \<Longrightarrow> a \<le> rhe x"
proof -
  assume "of_int a \<le> x"
  then have "a \<le> \<lfloor>x\<rfloor>" by (simp add: le_floor_iff)
  with rhe_floor [of x] show ?thesis by auto
qed

lemma rhe_upper: "x \<le> of_int b \<Longrightarrow> rhe x \<le> b"
proof (cases "x = of_int \<lfloor>x\<rfloor>")
  case True
  assume "x \<le> of_int b"
  with True have "\<lfloor>x\<rfloor> \<le> b" by linarith
  moreover from True have "rhe x = \<lfloor>x\<rfloor>" by (simp add: rhe_def Let_def)
  ultimately show ?thesis by simp
next
  case False
  assume "x \<le> of_int b"
  moreover have "of_int \<lfloor>x\<rfloor> \<le> x" by simp
  ultimately have "(of_int \<lfloor>x\<rfloor> :: rat) < of_int b" using False by linarith
  then have "\<lfloor>x\<rfloor> < b" by (simp only: of_int_less_iff)
  with rhe_floor [of x] show ?thesis by auto
qed

lemma rhe_error: "\<bar>of_int (rhe x) - x\<bar> \<le> 1/2"
proof -
  have "of_int \<lfloor>x\<rfloor> \<le> x" "x < of_int \<lfloor>x\<rfloor> + 1" by linarith+
  then show ?thesis by (auto simp: rhe_def Let_def abs_le_iff)
qed

lemma rhe_near:
  assumes "\<bar>x - of_int n\<bar> < 1/2"
  shows "rhe x = n"
proof -
  from rhe_error [of x] assms have "\<bar>(of_int (rhe x) :: rat) - of_int n\<bar> < 1" by linarith
  then have "\<bar>(of_int (rhe x - n) :: rat)\<bar> < 1" by simp
  then have "\<bar>rhe x - n\<bar> < 1" by (metis of_int_abs of_int_less_1_iff)
  then show ?thesis by simp
qed

lemma fl_error:
  assumes "\<bar>q\<bar> < 2 powi m"
  shows "\<bar>fl q - q\<bar> \<le> 2 powi (m - 54)"
proof (cases "q = 0")
  case True
  then show ?thesis by (simp add: fl_def)
next
  case False
  define e where "e = expo q"
  define s :: rat where "s = 2 powi (e - 52)"
  have spos: "0 < s" by (simp add: s_def)
  from expo_bounds [OF False] have lo: "2 powi e \<le> \<bar>q\<bar>" by (simp add: e_def)
  with assms have "(2::rat) powi e < 2 powi m" by simp
  then have "e < m"
    using power_int_increasing [of m e "2::rat"] by (cases "e < m") auto
  then have "e - 52 \<le> m - 53" by simp
  then have sle: "s \<le> 2 powi (m - 53)"
    unfolding s_def by (intro power_int_increasing) simp_all
  have f: "fl q = of_int (rhe (q / s)) * s"
    using False by (simp add: fl_def Let_def s_def e_def)
  have "fl q - q = (of_int (rhe (q / s)) - q / s) * s"
    using spos by (simp add: f field_simps)
  then have "\<bar>fl q - q\<bar> = \<bar>of_int (rhe (q / s)) - q / s\<bar> * s"
    using spos by (simp add: abs_mult)
  also have "\<dots> \<le> 1/2 * s"
    using rhe_error [of "q / s"] spos by (intro mult_right_mono) simp_all
  also have "\<dots> \<le> 1/2 * 2 powi (m - 53)"
    using sle by simp
  also have "\<dots> = 2 powi (m - 54)"
  proof -
    have "(2::rat) powi (m - 53) = 2 powi ((m - 54) + 1)" by simp
    also have "\<dots> = 2 powi (m - 54) * 2 powi 1"
      by (subst power_int_add) simp_all
    finally show ?thesis by simp
  qed
  finally show ?thesis .
qed

lemma fl_error_1: "\<bar>q\<bar> < 1 \<Longrightarrow> \<bar>fl q - q\<bar> \<le> 1 / 2 ^ 54"
proof -
  assume "\<bar>q\<bar> < 1"
  moreover have "(2::rat) powi (0 - 54) = 1 / 2 ^ 54"
    by (simp add: power_int_def power_divide)
  ultimately show ?thesis using fl_error [of q 0] by simp
qed

lemma fl_error_2: "\<bar>q\<bar> < 2 \<Longrightarrow> \<bar>fl q - q\<bar> \<le> 1 / 2 ^ 53"
proof -
  assume "\<bar>q\<bar> < 2"
  moreover have "(2::rat) powi (1 - 54) = 1 / 2 ^ 53"
    by (simp add: power_int_def power_divide)
  ultimately show ?thesis using fl_error [of q 1] by simp
qed


lemma fl_1: "fl 1 = 1"
  using fl_0 [of 1] by (simp add: rhe_def)

lemma fl_quarter: "fl (1/4) = 1/4"
  using fl_m2 [of "1/4"] by (simp add: rhe_def)

lemma small_eps: "(1::rat) / 2 ^ 53 \<le> 1 / 1000000" "(1::rat) / 2 ^ 54 \<le> 1 / 1000000"
  by simp_all

lemma fl_nonneg: "0 \<le> q \<Longrightarrow> 0 \<le> fl q"
proof (cases "q = 0")
  case True
  then show ?thesis by (simp add: fl_def)
next
  case False
  assume "0 \<le> q"
  then have "of_int 0 \<le> q / 2 powi (expo q - 52)" by simp
  then have "0 \<le> rhe (q / 2 powi (expo q - 52))" by (rule rhe_lower)
  then show ?thesis using False by (simp add: fl_def Let_def)
qed

lemma fl_error_16: "\<bar>q\<bar> < 16 \<Longrightarrow> \<bar>fl q - q\<bar> \<le> 1 / 1000000000000000"
proof -
  assume "\<bar>q\<bar> < 16"
  moreover have "(2::rat) powi 4 = 16" by (simp add: power_int_def)
  moreover have "(2::rat) powi (4 - 54) = 1 / 2 ^ 50"
    by (simp add: power_int_def power_divide)
  moreover have "(1::rat) / 2 ^ 50 \<le> 1 / 1000000000000000" by simp
  ultimately show ?thesis using fl_error [of q 4] by simp
qed

lemma fl_tiny_1: "\<bar>q\<bar> < 1 \<Longrightarrow> \<bar>fl q - q\<bar> \<le> 1 / 16000000000000000"
proof -
  assume "\<bar>q\<bar> < 1"
  then have "\<bar>fl q - q\<bar> \<le> 1 / 2 ^ 54" by (rule fl_error_1)
  moreover have "(1::rat) / 2 ^ 54 \<le> 1 / 16000000000000000" by simp
  ultimately show ?thesis by linarith
qed

lemma fl_tiny_2: "\<bar>q\<bar> < 2 \<Longrightarrow> \<bar>fl q - q\<bar> \<le> 1 / 8000000000000000"
proof -
  assume "\<bar>q\<bar> < 2"
  then have "\<bar>fl q - q\<bar> \<le> 1 / 2 ^ 53" by (rule fl_error_2)
  moreover have "(1::rat) / 2 ^ 53 \<le> 1 / 8000000000000000" by simp
  ultimately show ?thesis by linarith
qed

lemma fl_near_1: "\<bar>q\<bar> < 1 \<Longrightarrow> \<bar>fl q - q\<bar> \<le> 1 / 1000000"
  using fl_error_1 [of q] small_eps(2) by linarith

lemma fl_near_2: "\<bar>q\<bar> < 2 \<Longrightarrow> \<bar>fl q - q\<bar> \<le> 1 / 1000000"
  using fl_error_2 [of q] small_eps(1) by linarith

lemma pyround2_cent: "pyround u 2 = fl (of_int (rhe (u * 100)) / 100)"
  by (simp add: pyround_def)

lemma cent_near:
  assumes "0 \<le> c" "c \<le> 99"
  shows "\<bar>fl (of_int c / 100) - of_int c / 100\<bar> \<le> 1 / 1000000"
proof -
  from assms have "(0::rat) \<le> of_int c" "(of_int c :: rat) \<le> 99" by simp_all
  then have "\<bar>(of_int c / 100 :: rat)\<bar> < 1" by simp
  then show ?thesis by (rule fl_near_1)
qed

lemma cent_mono:
  assumes "0 \<le> a" "a \<le> b" "b \<le> 100"
  shows "fl (of_int a / 100) \<le> fl (of_int b / 100)"
proof (cases "a = b")
  case True
  then show ?thesis by simp
next
  case False
  with assms have ab: "a + 1 \<le> b" by simp
  then have abq: "(of_int a :: rat) + 1 \<le> of_int b"
    by (metis of_int_1 of_int_add of_int_le_iff)
  from assms ab have "a \<le> 99" by simp
  with assms(1) have ea: "\<bar>fl (of_int a / 100) - of_int a / 100\<bar> \<le> 1 / 1000000"
    by (rule cent_near)
  show ?thesis
  proof (cases "b = 100")
    case True
    from \<open>a \<le> 99\<close> have "(of_int a :: rat) \<le> 99" by simp
    moreover from True have "fl (of_int b / 100) = 1" by (simp add: fl_1)
    ultimately show ?thesis using ea by linarith
  next
    case False
    with assms have "0 \<le> b" "b \<le> 99" by simp_all
    then have eb: "\<bar>fl (of_int b / 100) - of_int b / 100\<bar> \<le> 1 / 1000000"
      by (rule cent_near)
    from ea eb abq show ?thesis by linarith
  qed
qed

lemma ndvi_draw_cent:
  assumes "fl (25/100) \<le> u" "u \<le> fl (85/100)"
  shows "25 \<le> rhe (u * 100) \<and> rhe (u * 100) \<le> 85"
proof
  from assms(1) have "1/4 \<le> u" by (simp add: fl_quarter)
  then have "of_int 25 \<le> u * 100" by simp
  then show "25 \<le> rhe (u * 100)" by (rule rhe_lower)
next
  have "\<bar>fl (85/100) - 85/100\<bar> \<le> 1 / 1000000"
    using cent_near [of 85] by simp
  with assms(2) have up: "u * 100 \<le> 85 + 1 / 10000" by linarith
  show "rhe (u * 100) \<le> 85"
  proof (cases "u * 100 \<le> 85")
    case True
    then have "u * 100 \<le> of_int 85" by simp
    then show ?thesis by (rule rhe_upper)
  next
    case False
    with up have "\<bar>u * 100 - of_int 85\<bar> < 1/2" by simp
    then have "rhe (u * 100) = 85" by (rule rhe_near)
    then show ?thesis by simp
  qed
qed

lemma abs_boundD:
  assumes "\<bar>a - b\<bar> \<le> (e::rat)"
  shows "b - e \<le> a" and "a \<le> b + e"
  using assms by linarith+

lemma ndvi_stats:
  assumes u: "fl (25/100) \<le> u" "u \<le> fl (85/100)"
  defines "v \<equiv> pyround u 2"
  defines "mn \<equiv> pyround (pymax (fl (1/10)) (fsub v (fl (2/10)))) 2"
  defines "mx \<equiv> pyround (pymin 1 (fadd v (fl (15/100)))) 2"
  shows "fl (25/100) \<le> v \<and> v \<le> fl (85/100) \<and> mn \<le> v \<and> v \<le> mx \<and> fl (1/10) \<le> mn \<and> mx \<le> 1"
proof -
  define k where "k = rhe (u * 100)"
  define K :: rat where "K = of_int k"
  from ndvi_draw_cent [OF u] have k: "25 \<le> k" "k \<le> 85" by (simp_all add: k_def)
  then have K: "25 \<le> K" "K \<le> 85" by (simp_all add: K_def)
  have v: "v = fl (of_int k / 100)" by (simp add: v_def pyround2_cent k_def)
  have "\<bar>v - K / 100\<bar> \<le> 1 / 1000000"
    unfolding v K_def using k by (intro cent_near) simp_all
  note ev = abs_boundD [OF this]
  define f10 where "f10 = fl (1/10)"
  define f20 where "f20 = fl (2/10)"
  define f15 where "f15 = fl (15/100)"
  have "\<bar>f10 - 1/10\<bar> \<le> 1 / 1000000" unfolding f10_def by (rule fl_near_1) simp
  note e10 = abs_boundD [OF this]
  have "\<bar>f20 - 2/10\<bar> \<le> 1 / 1000000" unfolding f20_def by (rule fl_near_1) simp
  note e20 = abs_boundD [OF this]
  have "\<bar>f15 - 15/100\<bar> \<le> 1 / 1000000" unfolding f15_def by (rule fl_near_1) simp
  note e15 = abs_boundD [OF this]
  define d where "d = fsub v f20"
  have "\<bar>v - f20\<bar> < 1" using ev e20 K by linarith
  then have "\<bar>d - (v - f20)\<bar> \<le> 1 / 1000000"
    unfolding d_def fsub_def by (rule fl_near_1)
  note abs_boundD [OF this]
  then have ed: "K / 100 - 20 / 100 - 3 / 1000000 \<le> d" "d \<le> K / 100 - 20 / 100 + 3 / 1000000"
    using ev e20 by linarith+
  define s where "s = fadd v f15"
  have "\<bar>v + f15\<bar> < 2" using ev e15 K by linarith
  then have "\<bar>s - (v + f15)\<bar> \<le> 1 / 1000000"
    unfolding s_def fadd_def by (rule fl_near_2)
  note abs_boundD [OF this]
  then have es: "K / 100 + 15 / 100 - 3 / 1000000 \<le> s" "s \<le> K / 100 + 15 / 100 + 3 / 1000000"
    using ev e15 by linarith+
  define cmn where "cmn = max 10 (k - 20)"
  have near_mn: "\<bar>pymax f10 d * 100 - of_int cmn\<bar> < 1/2"
  proof -
    consider "k \<le> 29" | "k = 30" | "31 \<le> k" by linarith
    then show ?thesis
    proof cases
      case 1
      then have "K \<le> 29" by (simp add: K_def)
      with ed e10 have "\<not> f10 < d" by linarith
      then have "pymax f10 d = f10" by (simp add: pymax_def)
      moreover from 1 have "(of_int cmn :: rat) = 10" by (simp add: cmn_def)
      ultimately show ?thesis using e10 by linarith
    next
      case 2
      then have K30: "K = 30" by (simp add: K_def)
      from 2 have c10: "(of_int cmn :: rat) = 10" by (simp add: cmn_def)
      show ?thesis
      proof (cases "f10 < d")
        case True
        then have "pymax f10 d = d" by (simp add: pymax_def)
        with K30 c10 ed show ?thesis by linarith
      next
        case False
        then have "pymax f10 d = f10" by (simp add: pymax_def)
        with c10 e10 show ?thesis by linarith
      qed
    next
      case 3
      then have "31 \<le> K" by (simp add: K_def)
      with ed e10 have "f10 < d" by linarith
      then have "pymax f10 d = d" by (simp add: pymax_def)
      moreover from 3 have "(of_int cmn :: rat) = K - 20" by (simp add: cmn_def K_def)
      ultimately show ?thesis using ed by linarith
    qed
  qed
  then have "rhe (pymax f10 d * 100) = cmn" by (rule rhe_near)
  then have mn: "mn = fl (of_int cmn / 100)"
    by (simp add: mn_def pyround2_cent d_def f10_def f20_def)
  have near_mx: "\<bar>pymin 1 s * 100 - of_int (k + 15)\<bar> < 1/2"
  proof -
    consider "k \<le> 84" | "k = 85" using k by linarith
    then show ?thesis
    proof cases
      case 1
      then have "K \<le> 84" by (simp add: K_def)
      with es have "s < 1" by linarith
      then have "pymin 1 s = s" by (simp add: pymin_def)
      moreover have "(of_int (k + 15) :: rat) = K + 15" by (simp add: K_def)
      ultimately show ?thesis using es by linarith
    next
      case 2
      then have K85: "K = 85" by (simp add: K_def)
      from 2 have c100: "(of_int (k + 15) :: rat) = 100" by simp
      show ?thesis
      proof (cases "s < 1")
        case True
        then have "pymin 1 s = s" by (simp add: pymin_def)
        with K85 c100 es show ?thesis by linarith
      next
        case False
        then have "pymin 1 s = 1" by (simp add: pymin_def)
        with c100 show ?thesis by linarith
      qed
    qed
  qed
  then have "rhe (pymin 1 s * 100) = k + 15" by (rule rhe_near)
  then have mx: "mx = fl (of_int (k + 15) / 100)"
    by (simp add: mx_def pyround2_cent s_def f15_def)
  have c1: "fl (25/100) \<le> v"
    using cent_mono [of 25 k] k by (simp add: v)
  have c2: "v \<le> fl (85/100)"
    using cent_mono [of k 85] k by (simp add: v)
  have c3: "mn \<le> v"
    unfolding mn v using k by (intro cent_mono) (simp_all add: cmn_def)
  have c4: "v \<le> mx"
    unfolding mx v using k by (intro cent_mono) simp_all
  have c5: "fl (1/10) \<le> mn"
    using cent_mono [of 10 cmn] k by (simp add: mn cmn_def)
  have c6: "mx \<le> 1"
    using cent_mono [of "k + 15" 100] k by (simp add: mx fl_1)
  from c1 c2 c3 c4 c5 c6 show ?thesis by blast
qed

lemma fle_iff_not_fgt: "v \<noteq> NaN \<Longrightarrow> w \<noteq> NaN \<Longrightarrow> fle v w \<longleftrightarrow> \<not> fgt v w"
  by (cases v; cases w) auto

lemma fgt_c05_c07: "fgt v c07 \<Longrightarrow> fgt v c05"
  by (cases v) (auto simp: thresholds)

lemma fgt_c03_c05: "fgt v c05 \<Longrightarrow> fgt v c03"
  by (cases v) (auto simp: thresholds)

lemma fgt_c01_c03: "fgt v c03 \<Longrightarrow> fgt v c01"
  by (cases v) (auto simp: thresholds)

lemma thresholds_not_NaN: "c07 \<noteq> NaN" "c05 \<noteq> NaN" "c03 \<noteq> NaN" "c01 \<noteq> NaN"
  by (simp_all add: thresholds)

lemma fgt_irrefl: "\<not> fgt v v"
  by (cases v) auto

lemma class_of_cases:
  "class_of v =
     (if fgt v c07 then ''excellent'' else if fgt v c05 then ''good''
      else if fgt v c03 then ''moderate'' else ''poor'')"
  by (simp add: class_of_def get_ndvi_color_def)

lemma interp_distinct:
  "distinct [interp_very_high, interp_high, interp_moderate, interp_low, interp_very_low]"
  by (simp add: interp_very_high_def interp_high_def interp_moderate_def interp_low_def
      interp_very_low_def)

section \<open>Facts about dates\<close>

lemma digit_less: "i < 10 \<Longrightarrow> j < 10 \<Longrightarrow> digit i < digit j \<longleftrightarrow> i < j"
proof -
  assume "i < 10" "j < 10"
  then have "i \<in> {0,1,2,3,4,5,6,7,8,9}" "j \<in> {0,1,2,3,4,5,6,7,8,9}" by auto
  then show ?thesis by (auto simp: digit_def less_char_def)
qed

lemma digit_eq: "i < 10 \<Longrightarrow> j < 10 \<Longrightarrow> digit i = digit j \<longleftrightarrow> i = j"
proof -
  assume "i < 10" "j < 10"
  then have "i \<in> {0,1,2,3,4,5,6,7,8,9}" "j \<in> {0,1,2,3,4,5,6,7,8,9}" by auto
  then show ?thesis by (auto simp: digit_def)
qed

lemma divmod_lex:
  fixes a b :: nat
  assumes "a < b" "0 < k"
  shows "a div k < b div k \<or> a div k = b div k \<and> a mod k < b mod k"
proof (cases "a div k < b div k")
  case True
  then show ?thesis by simp
next
  case False
  from assms(1) have "a div k \<le> b div k" by (simp add: div_le_mono)
  with False have eq: "a div k = b div k" by simp
  have "a = k * (a div k) + a mod k" "b = k * (b div k) + b mod k" by simp_all
  with eq assms(1) have "a mod k < b mod k" by (metis nat_add_left_cancel_less)
  with eq show ?thesis by simp
qed

lemma pad2_less: "a < b \<Longrightarrow> b < 100 \<Longrightarrow> pad2 a < pad2 b"
proof -
  assume ab: "a < b" "b < 100"
  then have d: "a div 10 mod 10 = a div 10" "b div 10 mod 10 = b div 10" by simp_all
  from ab have r: "a div 10 < 10" "b div 10 < 10" "a mod 10 < 10" "b mod 10 < 10" by simp_all
  from divmod_lex [OF ab(1), of 10]
  have "a div 10 < b div 10 \<or> a div 10 = b div 10 \<and> a mod 10 < b mod 10" by simp
  then show ?thesis
  proof
    assume "a div 10 < b div 10"
    with r have "digit (a div 10) < digit (b div 10)" by (simp add: digit_less)
    then show ?thesis by (simp add: pad2_def d)
  next
    assume e: "a div 10 = b div 10 \<and> a mod 10 < b mod 10"
    with r have "digit (a mod 10) < digit (b mod 10)" by (simp add: digit_less)
    with e show ?thesis by (simp add: pad2_def d)
  qed
qed

lemma length_pad2: "length (pad2 n) = 2"
  by (simp add: pad2_def)

lemma length_pad4: "length (pad4 n) = 4"
  by (simp add: pad4_def pad2_def)

lemma append_less_left:
  fixes x y :: string
  shows "length x = length y \<Longrightarrow> x < y \<Longrightarrow> x @ u < y @ v"
  by (induction x y rule: list_induct2) auto

lemma append_less_same:
  fixes x :: string
  shows "x @ u < x @ v \<longleftrightarrow> u < v"
  by (induction x) auto

lemma pad4_less: "a < b \<Longrightarrow> b < 10000 \<Longrightarrow> pad4 a < pad4 b"
proof -
  assume ab: "a < b" "b < 10000"
  from ab have r: "b div 100 < 100" "b mod 100 < 100" by simp_all
  from divmod_lex [OF ab(1), of 100]
  have "a div 100 < b div 100 \<or> a div 100 = b div 100 \<and> a mod 100 < b mod 100" by simp
  then show ?thesis
  proof
    assume "a div 100 < b div 100"
    then have "pad2 (a div 100) < pad2 (b div 100)" using r(1) by (rule pad2_less)
    then show ?thesis unfolding pad4_def
      by (intro append_less_left) (simp_all add: length_pad2)
  next
    assume e: "a div 100 = b div 100 \<and> a mod 100 < b mod 100"
    then have "pad2 (a mod 100) < pad2 (b mod 100)" using r(2) by (intro pad2_less) simp_all
    with e show ?thesis unfolding pad4_def by (simp add: append_less_same)
  qed
qed

lemma fmt_date_less:
  assumes "date_lt a b" "dt_year b < 10000" "dt_month b < 100" "dt_day b < 100"
  shows "fmt_date a < fmt_date b"
proof -
  from assms(1) consider "dt_year a < dt_year b"
    | "dt_year a = dt_year b" "dt_month a < dt_month b"
    | "dt_year a = dt_year b" "dt_month a = dt_month b" "dt_day a < dt_day b"
    by (auto simp: date_lt_def)
  then show ?thesis
  proof cases
    case 1
    from 1 assms(2) have "pad4 (dt_year a) < pad4 (dt_year b)" by (rule pad4_less)
    then show ?thesis unfolding fmt_date_def
      by (intro append_less_left) (simp_all add: length_pad4)
  next
    case 2
    from 2(2) assms(3) have "pad2 (dt_month a) < pad2 (dt_month b)" by (rule pad2_less)
    then have "pad2 (dt_month a) @ ''-'' @ pad2 (dt_day a) < pad2 (dt_month b) @ ''-'' @ pad2 (dt_day b)"
      by (intro append_less_left) (simp_all add: length_pad2)
    then show ?thesis unfolding fmt_date_def 2(1) by (simp add: append_less_same)
  next
    case 3
    from 3(3) assms(4) have "pad2 (dt_day a) < pad2 (dt_day b)" by (rule pad2_less)
    then show ?thesis unfolding fmt_date_def 3(1) 3(2) by (simp add: append_less_same)
  qed
qed

subsection \<open>The calendar\<close>

lemma days_in_month_bounds: "28 \<le> days_in_month y m" "days_in_month y m \<le> 31"
  by (simp_all add: days_in_month_def)

lemma days_in_month_pos: "Suc 0 \<le> days_in_month y m"
  using days_in_month_bounds(1) [of y m] by simp

lemma days_in_month_ends: "days_in_month y 12 = 31" "days_in_month y (Suc 0) = 31"
  by (simp_all add: days_in_month_def)


lemma next_day_lt: "valid_datetime t \<Longrightarrow> date_lt t (next_day t)"
  by (auto simp: valid_datetime_def next_day_def date_lt_def)



lemma date_lt_trans: "date_lt a b \<Longrightarrow> date_lt b c \<Longrightarrow> date_lt a c"
  by (auto simp: date_lt_def)


lemma date_lt_le_trans: "date_lt a b \<Longrightarrow> date_le b c \<Longrightarrow> date_lt a c"
  by (auto simp: date_lt_def date_le_def same_date_def)


lemma next_day_year: "dt_year t \<le> dt_year (next_day t)" "dt_year (next_day t) \<le> dt_year t + 1"
  by (simp_all add: next_day_def)

lemma prev_day_year: "dt_year (prev_day t) \<le> dt_year t" "dt_year t \<le> dt_year (prev_day t) + 1"
  by (auto simp: prev_day_def)

lemma prev_day_valid:
  "valid_datetime t \<Longrightarrow> 1 < dt_year t \<Longrightarrow> valid_datetime (prev_day t)"
  by (auto simp: valid_datetime_def prev_day_def days_in_month_pos days_in_month_ends)

lemma next_prev_day:
  "valid_datetime t \<Longrightarrow> 1 < dt_year t \<Longrightarrow> next_day (prev_day t) = t"
  by (auto simp: valid_datetime_def prev_day_def next_day_def days_in_month_def)

lemma prev_day_lt:
  assumes "valid_datetime t" "1 < dt_year t"
  shows "date_lt (prev_day t) t"
  using next_day_lt [OF prev_day_valid [OF assms]] by (simp add: next_prev_day [OF assms])

lemma prev_pow:
  "valid_datetime t \<Longrightarrow> n < dt_year t \<Longrightarrow>
   valid_datetime ((prev_day ^^ n) t) \<and> dt_year t \<le> dt_year ((prev_day ^^ n) t) + n \<and>
   dt_year ((prev_day ^^ n) t) \<le> dt_year t"
proof (induction n)
  case 0
  then show ?case by simp
next
  case (Suc n)
  then have ih: "valid_datetime ((prev_day ^^ n) t)"
    "dt_year t \<le> dt_year ((prev_day ^^ n) t) + n" "dt_year ((prev_day ^^ n) t) \<le> dt_year t"
    by simp_all
  from ih(2) Suc.prems(2) have y: "1 < dt_year ((prev_day ^^ n) t)" by simp
  from prev_day_valid [OF ih(1) y] prev_day_year [of "(prev_day ^^ n) t"] ih(2,3)
  show ?case by simp
qed

lemma next_prev_pow:
  "valid_datetime t \<Longrightarrow> n < dt_year t \<Longrightarrow> m \<le> n \<Longrightarrow>
   (next_day ^^ m) ((prev_day ^^ n) t) = (prev_day ^^ (n - m)) t"
proof (induction m)
  case 0
  then show ?case by simp
next
  case (Suc m)
  define j where "j = n - Suc m"
  from Suc.prems have nm: "n - m = Suc j" by (simp add: j_def)
  from Suc have ih: "(next_day ^^ m) ((prev_day ^^ n) t) = (prev_day ^^ (n - m)) t" by simp
  from Suc.prems have "j < dt_year t" by (simp add: j_def)
  from prev_pow [OF Suc.prems(1) this]
  have v: "valid_datetime ((prev_day ^^ j) t)" and y: "dt_year t \<le> dt_year ((prev_day ^^ j) t) + j"
    by simp_all
  from y Suc.prems have "1 < dt_year ((prev_day ^^ j) t)" by (simp add: j_def)
  from next_prev_day [OF v this] show ?case
    by (simp add: ih nm) (simp add: j_def)
qed

lemma prev_pow_lt:
  "valid_datetime t \<Longrightarrow> n < dt_year t \<Longrightarrow> j < n \<Longrightarrow>
   date_lt ((prev_day ^^ n) t) ((prev_day ^^ j) t)"
proof (induction n)
  case 0
  then show ?case by simp
next
  case (Suc n)
  from Suc.prems have n: "n < dt_year t" by simp
  from prev_pow [OF Suc.prems(1) n]
  have v: "valid_datetime ((prev_day ^^ n) t)" and y: "dt_year t \<le> dt_year ((prev_day ^^ n) t) + n"
    by simp_all
  from y Suc.prems(2) have "1 < dt_year ((prev_day ^^ n) t)" by simp
  from prev_day_lt [OF v this] have step: "date_lt ((prev_day ^^ Suc n) t) ((prev_day ^^ n) t)"
    by simp
  show ?case
  proof (cases "j = n")
    case True
    with step show ?thesis by simp
  next
    case False
    with Suc.prems have "j < n" by simp
    from Suc.IH [OF Suc.prems(1) n this] step show ?thesis by (rule date_lt_trans [rotated])
  qed
qed

text \<open>The date of iteration \<open>i\<close> of the history loop.\<close>

lemma history_date:
  assumes "valid_datetime now" "90 < dt_year now" "i < 8"
  shows "sub_days now 90 = Inr ((prev_day ^^ 90) now)"
    and "add_days ((prev_day ^^ 90) now) (i * 12) = Inr ((prev_day ^^ (90 - i * 12)) now)"
proof -
  from prev_pow [OF assms(1,2)] assms(2) have "1 \<le> dt_year ((prev_day ^^ 90) now)" by linarith
  then show "sub_days now 90 = Inr ((prev_day ^^ 90) now)"
    by (simp add: sub_days_def Let_def)
  from assms(3) have le: "i * 12 \<le> 90" by simp
  have e: "(next_day ^^ (i * 12)) ((prev_day ^^ 90) now) = (prev_day ^^ (90 - i * 12)) now"
    by (rule next_prev_pow [OF assms(1,2) le])
  from assms(2) have "90 - i * 12 < dt_year now" by simp
  from prev_pow [OF assms(1) this] assms(1)
  have "dt_year ((prev_day ^^ (90 - i * 12)) now) \<le> 9999" by (simp add: valid_datetime_def)
  then show "add_days ((prev_day ^^ 90) now) (i * 12) = Inr ((prev_day ^^ (90 - i * 12)) now)"
    by (simp add: add_days_def Let_def e)
qed

lemma history_loop_all:
  "(\<And>i. i \<in> set is \<Longrightarrow> add_days base (i * 12) = Inr (D i)) \<Longrightarrow>
   history_loop base rnd is acc = Inr (acc @ map (\<lambda>i. make_entry (D i) (rnd i)) is)"
  by (induction "is" arbitrary: acc) simp_all

section \<open>Facts about the field history\<close>

lemma he_date_make_entry: "he_date (make_entry d r) = fmt_date d"
  by (simp add: make_entry_def Let_def)

lemma valid_fmt_bounds:
  "valid_datetime t \<Longrightarrow> dt_year t < 10000 \<and> dt_month t < 100 \<and> dt_day t < 100"
  using days_in_month_bounds(2) [of "dt_year t" "dt_month t"]
  by (simp add: valid_datetime_def)

lemma history_dates_ascending:
  assumes "valid_datetime now" "90 < dt_year now"
  shows "sorted_wrt (<) (map (\<lambda>i. fmt_date ((prev_day ^^ (90 - i * 12)) now)) [0..<8])"
proof -
  have "fmt_date ((prev_day ^^ (90 - i * 12)) now) < fmt_date ((prev_day ^^ (90 - j * 12)) now)"
    if "i < j" "j < 8" for i j
  proof -
    from assms(2) have a: "90 - i * 12 < dt_year now" and b: "90 - j * 12 < dt_year now" by simp_all
    from that have c: "90 - j * 12 < 90 - i * 12" by simp
    from prev_pow_lt [OF assms(1) a c]
    have lt: "date_lt ((prev_day ^^ (90 - i * 12)) now) ((prev_day ^^ (90 - j * 12)) now)" .
    from prev_pow [OF assms(1) b] have "valid_datetime ((prev_day ^^ (90 - j * 12)) now)" by simp
    from valid_fmt_bounds [OF this] lt show ?thesis by (intro fmt_date_less) simp_all
  qed
  then show ?thesis by (simp add: sorted_wrt_iff_nth_less)
qed

lemma history_entries_eq:
  assumes "valid_datetime (clock 0)" "90 < dt_year (clock 0)"
  shows "history_entries clock rnd =
     Inr (map (\<lambda>i. make_entry ((prev_day ^^ (90 - i * 12)) (clock 0)) (rnd i)) [0..<8])"
proof -
  let ?D = "\<lambda>i. (prev_day ^^ (90 - i * 12)) (clock 0)"
  let ?hs = "map (\<lambda>i. make_entry (?D i) (rnd i)) [0..<8]"
  have loop: "history_loop ((prev_day ^^ 90) (clock 0)) rnd [0..<8] [] = Inr ([] @ ?hs)"
    by (rule history_loop_all) (simp add: history_date(2) [OF assms])
  have "map he_date ?hs = map (\<lambda>i. fmt_date (?D i)) [0..<8]"
    by (simp add: he_date_make_entry)
  with history_dates_ascending [OF assms] have "sorted (map he_date ?hs)"
    by (simp only: strict_sorted_imp_sorted)
  then have "sort_key he_date ?hs = ?hs" by (rule sort_key_id_if_sorted)
  moreover have "sub_days (clock 0) 90 = Inr ((prev_day ^^ 90) (clock 0))"
    by (rule history_date(1) [OF assms, of 0]) simp
  ultimately show ?thesis using loop
    by (simp add: history_entries_def)
qed

lemma field_history_fields:
  fixes sm :: sum_algorithm and clock :: clock and rnd :: "nat \<Rightarrow> entry_rand" and req :: request
  assumes "valid_datetime (clock 0)" "90 < dt_year (clock 0)"
  defines "hs \<equiv> map (\<lambda>i. make_entry ((prev_day ^^ (90 - i * 12)) (clock 0)) (rnd i)) [0..<8]"
  shows "\<exists>resp. field_history sm clock rnd req = Inr (resp, 200) \<and>
     jget ''field_id'' resp =
       Some (JStr (case map_of (req_args req) ''field_id'' of None \<Rightarrow> ''1'' | Some x \<Rightarrow> x)) \<and>
     jget ''total_entries'' resp = Some (JInt 8) \<and>
     jget ''history'' resp = Some (JArr (map entry_json hs)) \<and>
     jget ''trend'' resp = Some (JStr (trend_of hs)) \<and>
     jget ''average_ndvi'' resp =
       Some (JFloat (Fin (pyround (fdiv (py_sum sm (map he_ndvi hs)) 8) 2)))"
proof -
  have len: "length hs = 8" by (simp add: hs_def)
  from history_entries_eq [where clock = clock and rnd = rnd, OF assms(1,2)]
  have "history_entries clock rnd = Inr hs"
    by (simp add: hs_def)
  with len show ?thesis
    by (simp add: field_history_def Let_def args_get_def)
qed

lemma history_list_sorted:
  fixes clock :: clock and rnd :: "nat \<Rightarrow> entry_rand"
  assumes "valid_datetime (clock 0)" "90 < dt_year (clock 0)"
  shows "sorted_wrt (<) (map he_date
     (map (\<lambda>i. make_entry ((prev_day ^^ (90 - i * 12)) (clock 0)) (rnd i)) [0..<8]))"
proof -
  have "map he_date (map (\<lambda>i. make_entry ((prev_day ^^ (90 - i * 12)) (clock 0)) (rnd i)) [0..<8])
      = map (\<lambda>i. fmt_date ((prev_day ^^ (90 - i * 12)) (clock 0))) [0..<8]"
    by (simp add: he_date_make_entry)
  with history_dates_ascending [where now = "clock 0", OF assms(1,2)] show ?thesis
    by (simp only:)
qed

lemma entry_json_fields:
  "jget ''date'' (entry_json h) = Some (JStr (he_date h))"
  "jget ''ndvi'' (entry_json h) = Some (JFloat (Fin (he_ndvi h)))"
  "jget ''health'' (entry_json h) = Some (JStr (he_health h))"
  by (simp_all add: entry_json_def)

lemma sample_clock_valid: "valid_datetime (sample_clock 0)" "1970 \<le> dt_year (sample_clock 0)"
  by (simp_all add: sample_clock_def sample_now_def valid_datetime_def days_in_month_def)

lemma trend_of_8:
  "length hs = 8 \<Longrightarrow>
   trend_of hs = (if he_ndvi (hs ! 0) < he_ndvi (hs ! 7) then ''improving'' else ''stable'')"
  by (cases "hs = []") (simp_all add: trend_of_def hd_conv_nth last_conv_nth)

subsection \<open>The sample draws\<close>

lemma fl_half: "fl (1/2) = 1/2"
  using fl_m1 [of "1/2"] by (simp add: rhe_eval)

lemma fl_13_64: "fl (13/64) = 13/64"
  using fl_m3 [of "13/64"] by (simp add: rhe_eval)

lemma fl_03_val: "fl (3/10) = 5404319552844595 / 18014398509481984"
  using fl_m2 [of "3/10"] by (simp add: rhe_eval)

lemma sample_raw:
  "fadd (fl (3/10)) (fmul (13/32) (fl (5/10))) = 2265873562520781 / 4503599627370496"
proof -
  have "fmul (13/32) (fl (5/10)) = 13/64" by (simp add: fmul_def fl_half fl_13_64)
  then have "fadd (fl (3/10)) (fmul (13/32) (fl (5/10))) = fl (5404319552844595 / 18014398509481984 + 13/64)"
    by (simp only: fadd_def fl_03_val)
  also have "\<dots> = 2265873562520781 / 4503599627370496"
    using fl_m1 [of "5404319552844595 / 18014398509481984 + 13/64"] by (simp add: rhe_eval)
  finally show ?thesis .
qed

lemma sample_entry:
  "he_ndvi (make_entry d (sample_history_rand i)) = 1/2"
  "he_health (make_entry d (sample_history_rand i)) = ''Good''"
proof -
  have r: "er_ndvi (sample_history_rand i) = 13/32" by (simp add: sample_history_rand_def)
  have p: "pyround (2265873562520781 / 4503599627370496) 2 = 1/2"
    by (simp add: pyround2_cent rhe_eval fl_half)
  show "he_ndvi (make_entry d (sample_history_rand i)) = 1/2"
    unfolding make_entry_def Let_def r sample_raw by (simp add: p)
  show "he_health (make_entry d (sample_history_rand i)) = ''Good''"
    unfolding make_entry_def Let_def r sample_raw by (simp add: thresholds)
qed

section \<open>Facts about the average\<close>

subsection \<open>The rounding error of a sum\<close>

lemma foldl_fadd_error:
  assumes "0 \<le> a" "a + 2 * of_nat (length xs) \<le> 16" "\<forall>x\<in>set xs. 0 \<le> x \<and> x \<le> 1"
  shows "\<bar>foldl fadd a xs - (a + sum_list xs)\<bar> \<le> of_nat (length xs) * (1 / 1000000000000000)"
  using assms
proof (induction xs arbitrary: a)
  case Nil
  then show ?case by simp
next
  case (Cons x xs)
  from Cons.prems have x: "0 \<le> x" "x \<le> 1" by simp_all
  from Cons.prems(2) have n: "a + 2 + 2 * of_nat (length xs) \<le> 16" by (simp add: algebra_simps)
  have "(0::rat) \<le> of_nat (length xs)" by simp
  with n Cons.prems(1) x have "\<bar>a + x\<bar> < 16" by linarith
  then have e: "\<bar>fl (a + x) - (a + x)\<bar> \<le> 1 / 1000000000000000" by (rule fl_error_16)
  from Cons.prems(1) x have "0 \<le> a + x" by simp
  then have p: "0 \<le> fadd a x" unfolding fadd_def by (rule fl_nonneg)
  from e x have u: "fadd a x \<le> a + 2" unfolding fadd_def by linarith
  with n have "fadd a x + 2 * of_nat (length xs) \<le> 16" by linarith
  from Cons.IH [OF p this] Cons.prems(3)
  have ih: "\<bar>foldl fadd (fadd a x) xs - (fadd a x + sum_list xs)\<bar> \<le> of_nat (length xs) * (1 / 1000000000000000)"
    by simp
  have l: "of_nat (length (x # xs)) * (1 / 1000000000000000 :: rat) =
      of_nat (length xs) * (1 / 1000000000000000) + 1 / 1000000000000000"
    by (simp add: algebra_simps)
  have f: "foldl fadd a (x # xs) = foldl fadd (fadd a x) xs" by simp
  have s: "sum_list (x # xs) = x + sum_list xs" by simp
  from e have e': "\<bar>fadd a x - (a + x)\<bar> \<le> 1 / 1000000000000000" by (simp only: fadd_def)
  from ih e' show ?case unfolding l f s by linarith
qed

lemma neumaier_term:
  assumes t: "\<bar>t - (f + x)\<bar> \<le> 1 / 1000000000000000"
    and x: "0 \<le> x" "x \<le> 1" and c: "\<bar>c\<bar> \<le> 1 / 1000"
  shows "\<bar>fl (c + fl (fl (f - t) + x)) - (c + (f + x - t))\<bar> \<le> 1 / 1000000000000000"
proof -
  from t x have "\<bar>f - t\<bar> < 2" by linarith
  then have d1: "\<bar>fl (f - t) - (f - t)\<bar> \<le> 1 / 8000000000000000" by (rule fl_tiny_2)
  with t have "\<bar>fl (f - t) + x\<bar> < 1" by linarith
  then have d2: "\<bar>fl (fl (f - t) + x) - (fl (f - t) + x)\<bar> \<le> 1 / 16000000000000000"
    by (rule fl_tiny_1)
  with d1 t c have "\<bar>c + fl (fl (f - t) + x)\<bar> < 1" by linarith
  then have "\<bar>fl (c + fl (fl (f - t) + x)) - (c + fl (fl (f - t) + x))\<bar> \<le> 1 / 16000000000000000"
    by (rule fl_tiny_1)
  with d1 d2 show ?thesis by linarith
qed

lemma neumaier_step_error:
  assumes f: "0 \<le> f" "f \<le> 14" and x: "0 \<le> x" "x \<le> 1" and c: "\<bar>c\<bar> \<le> 1 / 1000"
  shows "0 \<le> fst (neumaier_step (f, c) x)"
    and "fst (neumaier_step (f, c) x) \<le> f + 2"
    and "\<bar>fst (neumaier_step (f, c) x) + snd (neumaier_step (f, c) x) - (f + c + x)\<bar>
           \<le> 1 / 1000000000000000"
    and "\<bar>snd (neumaier_step (f, c) x)\<bar> \<le> \<bar>c\<bar> + 2 / 1000000000000000"
proof -
  define t where "t = fl (f + x)"
  from f x have "\<bar>f + x\<bar> < 16" by linarith
  then have e: "\<bar>t - (f + x)\<bar> \<le> 1 / 1000000000000000" unfolding t_def by (rule fl_error_16)
  from f x have "0 \<le> f + x" by simp
  then have tp: "0 \<le> t" unfolding t_def by (rule fl_nonneg)
  have fst_eq: "fst (neumaier_step (f, c) x) = t"
    by (simp add: neumaier_step_def Let_def fadd_def t_def)
  from tp show "0 \<le> fst (neumaier_step (f, c) x)" by (simp only: fst_eq)
  from e x show "fst (neumaier_step (f, c) x) \<le> f + 2" unfolding fst_eq by linarith
  have k: "\<bar>snd (neumaier_step (f, c) x) - (c + (f + x - t))\<bar> \<le> 1 / 1000000000000000"
  proof (cases "\<bar>x\<bar> \<le> \<bar>f\<bar>")
    case True
    then have "snd (neumaier_step (f, c) x) = fl (c + fl (fl (f - t) + x))"
      by (simp add: neumaier_step_def Let_def fadd_def fsub_def t_def)
    with neumaier_term [OF e x c] show ?thesis by simp
  next
    case False
    with f x have fx: "f \<le> 1" by linarith
    from False have "snd (neumaier_step (f, c) x) = fl (c + fl (fl (x - t) + f))"
      by (simp add: neumaier_step_def Let_def fadd_def fsub_def t_def)
    moreover from e have "\<bar>t - (x + f)\<bar> \<le> 1 / 1000000000000000" by (simp add: add.commute)
    from neumaier_term [OF this f(1) fx c]
    have "\<bar>fl (c + fl (fl (x - t) + f)) - (c + (f + x - t))\<bar> \<le> 1 / 1000000000000000"
      by (simp add: add.commute)
    ultimately show ?thesis by simp
  qed
  from k show "\<bar>fst (neumaier_step (f, c) x) + snd (neumaier_step (f, c) x) - (f + c + x)\<bar>
           \<le> 1 / 1000000000000000"
    unfolding fst_eq by linarith
  from k e show "\<bar>snd (neumaier_step (f, c) x)\<bar> \<le> \<bar>c\<bar> + 2 / 1000000000000000"
    by linarith
qed

lemma foldl_neumaier_error:
  assumes "0 \<le> f" "f + 2 * of_nat (length xs) \<le> 16"
    and "\<bar>c\<bar> + of_nat (length xs) * (2 / 1000000000000000) \<le> 1 / 1000"
    and "\<forall>x\<in>set xs. 0 \<le> x \<and> x \<le> 1"
  shows "\<bar>fst (foldl neumaier_step (f, c) xs) + snd (foldl neumaier_step (f, c) xs)
            - (f + c + sum_list xs)\<bar> \<le> of_nat (length xs) * (1 / 1000000000000000) \<and>
         0 \<le> fst (foldl neumaier_step (f, c) xs) \<and>
         fst (foldl neumaier_step (f, c) xs) \<le> f + 2 * of_nat (length xs) \<and>
         \<bar>snd (foldl neumaier_step (f, c) xs)\<bar> \<le> 1 / 1000"
  using assms
proof (induction xs arbitrary: f c)
  case Nil
  then show ?case by simp
next
  case (Cons x xs)
  obtain f' c' where st: "neumaier_step (f, c) x = (f', c')" by (cases "neumaier_step (f, c) x")
  from Cons.prems have x: "0 \<le> x" "x \<le> 1" by simp_all
  have n0: "(0::rat) \<le> of_nat (length xs)" by simp
  have l: "(of_nat (length (x # xs)) :: rat) = of_nat (length xs) + 1" by simp
  from Cons.prems(2) have p2: "f + 2 * of_nat (length xs) + 2 \<le> 16" by (simp add: algebra_simps)
  have l3: "of_nat (length (x # xs)) * (2 / 1000000000000000 :: rat) =
      of_nat (length xs) * (2 / 1000000000000000) + 2 / 1000000000000000"
    by (simp add: algebra_simps)
  from Cons.prems(3) have p3: "\<bar>c\<bar> + of_nat (length xs) * (2 / 1000000000000000) + 2 / 1000000000000000 \<le> 1 / 1000"
    unfolding l3 by linarith
  from p2 n0 have f14: "f \<le> 14" by linarith
  have "(0::rat) \<le> of_nat (length xs) * (2 / 1000000000000000)" by simp
  with p3 have c: "\<bar>c\<bar> \<le> 1 / 1000" by linarith
  note s = neumaier_step_error [OF Cons.prems(1) f14 x c, unfolded st fst_conv snd_conv]
  from s(2) p2 have a2: "f' + 2 * of_nat (length xs) \<le> 16" by linarith
  from s(4) p3 have a3: "\<bar>c'\<bar> + of_nat (length xs) * (2 / 1000000000000000) \<le> 1 / 1000"
    by linarith
  from Cons.prems(4) have a4: "\<forall>x\<in>set xs. 0 \<le> x \<and> x \<le> 1" by simp
  note ih = Cons.IH [OF s(1) a2 a3 a4]
  note i1 = ih [THEN conjunct1]
  note i2 = ih [THEN conjunct2, THEN conjunct1]
  note i3 = ih [THEN conjunct2, THEN conjunct2, THEN conjunct1]
  note i4 = ih [THEN conjunct2, THEN conjunct2, THEN conjunct2]
  have fo: "foldl neumaier_step (f, c) (x # xs) = foldl neumaier_step (f', c') xs" by (simp add: st)
  have su: "sum_list (x # xs) = x + sum_list xs" by simp
  have l2: "of_nat (length (x # xs)) * (1 / 1000000000000000 :: rat) =
      of_nat (length xs) * (1 / 1000000000000000) + 1 / 1000000000000000"
    by (simp add: algebra_simps)
  from i1 s(3) have "\<bar>fst (foldl neumaier_step (f', c') xs) + snd (foldl neumaier_step (f', c') xs)
            - (f + c + (x + sum_list xs))\<bar> \<le> of_nat (length xs) * (1 / 1000000000000000) + 1 / 1000000000000000"
    by linarith
  moreover from i3 s(2) have "fst (foldl neumaier_step (f', c') xs) \<le> f + 2 * of_nat (length xs) + 2"
    by linarith
  moreover have l4: "f + 2 * of_nat (length (x # xs)) = f + 2 * of_nat (length xs) + 2" by simp
  ultimately show ?case using i2 i4 unfolding fo su l2 l4 by (intro conjI)
qed

lemma sum_list_unit_bounds:
  "\<forall>x\<in>set xs. 0 \<le> x \<and> x \<le> (1::rat) \<Longrightarrow> 0 \<le> sum_list xs \<and> sum_list xs \<le> of_nat (length xs)"
  by (induction xs) auto

lemma py_sum_error:
  assumes len: "length xs = 8" and r: "\<forall>x\<in>set xs. 0 \<le> x \<and> x \<le> 1"
  shows "\<bar>py_sum sm xs - sum_list xs\<bar> \<le> 1 / 100000000000000"
proof (cases sm)
  case Plain_Sum
  from len have "(0::rat) + 2 * of_nat (length xs) \<le> 16" by simp
  from foldl_fadd_error [OF _ this r] len
  have "\<bar>foldl fadd 0 xs - (0 + sum_list xs)\<bar> \<le> 8 * (1 / 1000000000000000)" by simp
  with Plain_Sum show ?thesis by simp
next
  case Neumaier_Sum
  from len obtain x ys where xs: "xs = x # ys" by (cases xs) simp_all
  with len have ly: "length ys = 7" by simp
  from r xs have x: "0 \<le> x" "x \<le> 1" and ry: "\<forall>x\<in>set ys. 0 \<le> x \<and> x \<le> 1" by simp_all
  define f0 where "f0 = fadd 0 x"
  from x have "\<bar>x\<bar> < 2" by simp
  then have e0: "\<bar>f0 - x\<bar> \<le> 1 / 8000000000000000"
    unfolding f0_def fadd_def using fl_tiny_2 [of x] by simp
  from x have p0: "0 \<le> f0" unfolding f0_def fadd_def using fl_nonneg [of x] by simp
  from e0 x have "f0 \<le> 2" by linarith
  with ly have a2: "f0 + 2 * of_nat (length ys) \<le> 16" by simp
  from ly have a3: "\<bar>0::rat\<bar> + of_nat (length ys) * (2 / 1000000000000000) \<le> 1 / 1000" by simp
  define R where "R = foldl neumaier_step (f0, 0) ys"
  from foldl_neumaier_error [OF p0 a2 a3 ry] ly
  have b: "\<bar>fst R + snd R - (f0 + 0 + sum_list ys)\<bar> \<le> 7 * (1 / 1000000000000000)"
    "0 \<le> fst R" "fst R \<le> f0 + 14" "\<bar>snd R\<bar> \<le> 1 / 1000"
    unfolding R_def by simp_all
  have res: "py_sum sm xs = (if snd R \<noteq> 0 then fl (fst R + snd R) else fst R)"
    by (simp add: Neumaier_Sum xs R_def f0_def Let_def fadd_def)
  have s: "sum_list xs = x + sum_list ys" by (simp add: xs)
  show ?thesis
  proof (cases "snd R = 0")
    case True
    then have "py_sum sm xs = fst R" by (simp add: res)
    with b(1) e0 True show ?thesis unfolding s by linarith
  next
    case False
    from b(2,3,4) e0 x have "\<bar>fst R + snd R\<bar> < 16" by linarith
    then have "\<bar>fl (fst R + snd R) - (fst R + snd R)\<bar> \<le> 1 / 1000000000000000"
      by (rule fl_error_16)
    moreover from False have "py_sum sm xs = fl (fst R + snd R)" by (simp add: res)
    ultimately show ?thesis using b(1) e0 unfolding s by linarith
  qed
qed

subsection \<open>The average of the history\<close>

lemma make_entry_ndvi_range:
  assumes "0 \<le> er_ndvi r" "er_ndvi r < 1"
  shows "0 \<le> he_ndvi (make_entry d r) \<and> he_ndvi (make_entry d r) \<le> 1"
proof -
  define p where "p = fl (er_ndvi r * (1/2))"
  define b :: rat where "b = 5404319552844595 / 18014398509481984"
  define v where "v = fl (b + p)"
  define K where "K = rhe (v * 100)"
  have b: "0 \<le> b" "b \<le> 3/10" by (simp_all add: b_def)
  from assms have h: "0 \<le> er_ndvi r * (1/2)" "\<bar>er_ndvi r * (1/2)\<bar> < 1" by simp_all
  have p: "0 \<le> p" "\<bar>p - er_ndvi r * (1/2)\<bar> \<le> 1 / 1000000"
    unfolding p_def by (rule fl_nonneg [OF h(1)], rule fl_near_1 [OF h(2)])
  from p assms b have g: "0 \<le> b + p" "\<bar>b + p\<bar> < 1" by linarith+
  have v: "0 \<le> v" "\<bar>v - (b + p)\<bar> \<le> 1 / 1000000"
    unfolding v_def by (rule fl_nonneg [OF g(1)], rule fl_near_1 [OF g(2)])
  from v(1) have "of_int 0 \<le> v * 100" by simp
  then have K0: "0 \<le> K" unfolding K_def by (rule rhe_lower)
  from v(2) p(2) assms(2) b(2) have "v * 100 \<le> 81" by linarith
  then have "v * 100 \<le> of_int 81" by simp
  then have K1: "K \<le> 81" unfolding K_def by (rule rhe_upper)
  from K0 K1 have "\<bar>fl (of_int K / 100) - of_int K / 100\<bar> \<le> 1 / 1000000"
    by (intro cent_near) simp_all
  moreover from K1 have "(of_int K :: rat) \<le> 81" by simp
  ultimately have "fl (of_int K / 100) \<le> 1" by linarith
  moreover from K0 have "(0::rat) \<le> of_int K / 100" by simp
  then have "0 \<le> fl (of_int K / 100)" by (rule fl_nonneg)
  moreover have "he_ndvi (make_entry d r) = fl (of_int K / 100)"
    by (simp add: make_entry_def Let_def fadd_def fmul_def fl_half fl_03_val pyround2_cent
        p_def v_def K_def b_def)
  ultimately show ?thesis by simp
qed

lemma average_near_mean:
  assumes len: "length xs = 8" and r: "\<forall>x\<in>set xs. 0 \<le> x \<and> x \<le> 1"
  shows "\<exists>K. pyround (fdiv (py_sum sm xs) 8) 2 = fl (of_int K / 100) \<and>
          \<bar>of_int K / 100 - arithmetic_mean xs\<bar> \<le> 1 / 200 + 1 / 100000000000000"
    and "\<bar>arithmetic_mean xs * 100 - of_int (rhe (arithmetic_mean xs * 100))\<bar> < 1 / 2 - 1 / 1000000000000 \<Longrightarrow>
         pyround (fdiv (py_sum sm xs) 8) 2 = pyround (arithmetic_mean xs) 2"
proof -
  define s where "s = py_sum sm xs"
  define q where "q = fl (s / 8)"
  define m where "m = arithmetic_mean xs"
  have m: "m = sum_list xs / 8" by (simp add: m_def arithmetic_mean_def len)
  from py_sum_error [OF len r] have e: "\<bar>s - sum_list xs\<bar> \<le> 1 / 100000000000000" by (simp add: s_def)
  from sum_list_unit_bounds [OF r] len have sb: "0 \<le> sum_list xs" "sum_list xs \<le> 8" by simp_all
  from e sb have "\<bar>s / 8\<bar> < 2" by linarith
  then have "\<bar>q - s / 8\<bar> \<le> 1 / 8000000000000000" unfolding q_def by (rule fl_tiny_2)
  with e have qm: "\<bar>q * 100 - m * 100\<bar> \<le> 1 / 1000000000000" unfolding m by linarith
  have py: "pyround (fdiv s 8) 2 = fl (of_int (rhe (q * 100)) / 100)"
    by (simp add: pyround2_cent fdiv_def q_def)
  from rhe_error [of "q * 100"] qm
  have "\<bar>of_int (rhe (q * 100)) / 100 - m\<bar> \<le> 1 / 200 + 1 / 100000000000000" by linarith
  with py show "\<exists>K. pyround (fdiv (py_sum sm xs) 8) 2 = fl (of_int K / 100) \<and>
          \<bar>of_int K / 100 - arithmetic_mean xs\<bar> \<le> 1 / 200 + 1 / 100000000000000"
    unfolding s_def m_def by blast
  assume "\<bar>arithmetic_mean xs * 100 - of_int (rhe (arithmetic_mean xs * 100))\<bar> < 1 / 2 - 1 / 1000000000000"
  with qm have "\<bar>q * 100 - of_int (rhe (m * 100))\<bar> < 1 / 2" unfolding m_def by linarith
  then have "rhe (q * 100) = rhe (m * 100)" by (rule rhe_near)
  with py show "pyround (fdiv (py_sum sm xs) 8) 2 = pyround (arithmetic_mean xs) 2"
    by (simp add: pyround2_cent s_def m_def)
qed

lemma ndvi_fields_entries:
  "jget ''history'' resp = Some (JArr (map entry_json hs)) \<Longrightarrow> ndvi_fields resp = map he_ndvi hs"
proof -
  have "concat (map ndvi_of (map entry_json hs)) = map he_ndvi hs"
    by (induction hs) (simp_all add: entry_json_def)
  moreover assume "jget ''history'' resp = Some (JArr (map entry_json hs))"
  ultimately show ?thesis by (simp add: ndvi_fields_def)
qed

lemma history_rand_okD:
  "history_rand_ok rnd \<Longrightarrow> i < 8 \<Longrightarrow> 0 \<le> er_ndvi (rnd i) \<and> er_ndvi (rnd i) < 1"
  by (simp add: history_rand_ok_def list_all_iff)

lemma history_ndvi_range:
  assumes "history_rand_ok rnd"
  shows "\<forall>x\<in>set (map he_ndvi (map (\<lambda>i. make_entry (D i) (rnd i)) [0..<8])). 0 \<le> x \<and> x \<le> 1"
proof -
  have "0 \<le> he_ndvi (make_entry (D i) (rnd i)) \<and> he_ndvi (make_entry (D i) (rnd i)) \<le> 1" if "i < 8" for i
    using history_rand_okD [OF assms that] by (intro make_entry_ndvi_range) simp_all
  then show ?thesis by simp
qed

lemma low_entry_6:
  "pyround (fadd (fl (3/10)) (fmul 0 (fl (5/10)))) 2 = 5404319552844595 / 18014398509481984"
  by code_simp

lemma low_entry_2:
  "pyround (fadd (fl (3/10)) (fmul (1/8) (fl (5/10)))) 2 = 3242591731706757 / 9007199254740992"
  by code_simp

lemma low_fields:
  "map he_ndvi (map (\<lambda>i. make_entry (D i) (low_history_rand i)) [0..<8]) =
     [5404319552844595 / 18014398509481984, 5404319552844595 / 18014398509481984,
      5404319552844595 / 18014398509481984, 5404319552844595 / 18014398509481984,
      5404319552844595 / 18014398509481984, 5404319552844595 / 18014398509481984,
      3242591731706757 / 9007199254740992, 3242591731706757 / 9007199254740992]"
proof -
  have a: "he_ndvi (make_entry d (low_history_rand i)) = 5404319552844595 / 18014398509481984"
    if "i < 6" for i d
    using that low_entry_6 unfolding make_entry_def Let_def low_history_rand_def by simp
  have b: "he_ndvi (make_entry d (low_history_rand i)) = 3242591731706757 / 9007199254740992"
    if "\<not> i < 6" for i d
    using that low_entry_2 unfolding make_entry_def Let_def low_history_rand_def by simp
  have u: "[0..<8] = [0, 1, 2, 3, 4, 5, 6, 7]" by (simp add: upt_rec)
  show ?thesis unfolding u by (simp add: a b)
qed

lemma low_average:
  "pyround (fdiv (py_sum Plain_Sum
     [5404319552844595 / 18014398509481984, 5404319552844595 / 18014398509481984,
      5404319552844595 / 18014398509481984, 5404319552844595 / 18014398509481984,
      5404319552844595 / 18014398509481984, 5404319552844595 / 18014398509481984,
      3242591731706757 / 9007199254740992, 3242591731706757 / 9007199254740992]) 8) 2
    = 5764607523034235 / 18014398509481984"
  "pyround (fdiv (py_sum Neumaier_Sum
     [5404319552844595 / 18014398509481984, 5404319552844595 / 18014398509481984,
      5404319552844595 / 18014398509481984, 5404319552844595 / 18014398509481984,
      5404319552844595 / 18014398509481984, 5404319552844595 / 18014398509481984,
      3242591731706757 / 9007199254740992, 3242591731706757 / 9007199254740992]) 8) 2
    = 5764607523034235 / 18014398509481984"
  by code_simp+

lemma cent_values:
  "fl (3/10) = 5404319552844595 / 18014398509481984"
  "fl (36/100) = 3242591731706757 / 9007199254740992"
  "fl (31/100) = 5584463537939415 / 18014398509481984"
  "fl (32/100) = 5764607523034235 / 18014398509481984"
  by code_simp+

lemma low_mean:
  "arithmetic_mean
     [5404319552844595 / 18014398509481984, 5404319552844595 / 18014398509481984,
      5404319552844595 / 18014398509481984, 5404319552844595 / 18014398509481984,
      5404319552844595 / 18014398509481984, 5404319552844595 / 18014398509481984,
      3242591731706757 / 9007199254740992, 3242591731706757 / 9007199254740992]
    = 22698142121947299 / 72057594037927936"
  by (simp add: arithmetic_mean_def)

lemma low_mean_rounded:
  "pyround (22698142121947299 / 72057594037927936) 2 = 5584463537939415 / 18014398509481984"
  by code_simp

lemma low_history_rand_ok: "history_rand_ok low_history_rand"
  by (simp add: history_rand_ok_def low_history_rand_def upt_rec)

lemma sample_history_rand_ok: "history_rand_ok sample_history_rand"
  by (simp add: history_rand_ok_def sample_history_rand_def upt_rec)

lemma low_response:
  "ndvi_fields (fst (projr (field_history sm sample_clock low_history_rand get_plain))) =
     [5404319552844595 / 18014398509481984, 5404319552844595 / 18014398509481984,
      5404319552844595 / 18014398509481984, 5404319552844595 / 18014398509481984,
      5404319552844595 / 18014398509481984, 5404319552844595 / 18014398509481984,
      3242591731706757 / 9007199254740992, 3242591731706757 / 9007199254740992]"
  "jget ''average_ndvi'' (fst (projr (field_history sm sample_clock low_history_rand get_plain))) =
     Some (JFloat (Fin (5764607523034235 / 18014398509481984)))"
  "snd (projr (field_history sm sample_clock low_history_rand get_plain)) = 200"
proof -
  let ?hs = "map (\<lambda>i. make_entry ((prev_day ^^ (90 - i * 12)) (sample_clock 0)) (low_history_rand i)) [0..<8]"
  from sample_clock_valid(2) have y: "90 < dt_year (sample_clock 0)" by simp
  from field_history_fields [where sm = sm and clock = sample_clock and rnd = low_history_rand
      and req = get_plain, OF sample_clock_valid(1) y]
  obtain resp where r: "field_history sm sample_clock low_history_rand get_plain = Inr (resp, 200)"
    "jget ''history'' resp = Some (JArr (map entry_json ?hs))"
    "jget ''average_ndvi'' resp =
       Some (JFloat (Fin (pyround (fdiv (py_sum sm (map he_ndvi ?hs)) 8) 2)))"
    by blast
  from r(1) have p: "fst (projr (field_history sm sample_clock low_history_rand get_plain)) = resp"
    by simp
  show "ndvi_fields (fst (projr (field_history sm sample_clock low_history_rand get_plain))) =
     [5404319552844595 / 18014398509481984, 5404319552844595 / 18014398509481984,
      5404319552844595 / 18014398509481984, 5404319552844595 / 18014398509481984,
      5404319552844595 / 18014398509481984, 5404319552844595 / 18014398509481984,
      3242591731706757 / 9007199254740992, 3242591731706757 / 9007199254740992]"
    unfolding p ndvi_fields_entries [OF r(2)] by (rule low_fields)
  show "jget ''average_ndvi'' (fst (projr (field_history sm sample_clock low_history_rand get_plain))) =
     Some (JFloat (Fin (5764607523034235 / 18014398509481984)))"
    unfolding p r(3) low_fields by (cases sm) (simp_all only: low_average)
  from r(1) show "snd (projr (field_history sm sample_clock low_history_rand get_plain)) = 200"
    by simp
qed

lemma sample_fields:
  "map he_ndvi (map (\<lambda>i. make_entry (D i) (sample_history_rand i)) [0..<8]) =
     [1/2, 1/2, 1/2, 1/2, 1/2, 1/2, 1/2, 1/2]"
  by (simp add: upt_rec sample_entry)

lemma half_mean:
  "arithmetic_mean [1/2, 1/2, 1/2, 1/2, 1/2, 1/2, 1/2, 1/2] = 1/2"
  "rhe (1/2 * 100) = 50"
  "pyround (1/2) 2 = 1/2"
  by (simp_all add: arithmetic_mean_def rhe_eval pyround2_cent fl_half)

section \<open>Facts about the forecast\<close>


















section \<open>Facts about the analysis handler\<close>

lemma analyze_field_cases:
  "analyze_field exc_str clock rnd req = (JObj [(''status'', JStr ''ok'')], 200) \<or>
   analyze_field exc_str clock rnd req = missing_bounds \<or>
   (\<exists>e. analyze_field exc_str clock rnd req =
      (JObj [(''status'', JStr ''error''), (''message'', JStr (''Analysis error: '' @ exc_str e))], 500)) \<or>
   (\<exists>name. analyze_field exc_str clock rnd req = (analysis_response clock rnd name, 200))"
  by (auto simp: analyze_field_def analyze_try_def Let_def split: sum.splits json.splits)

lemma analysis_response_status:
  "jget ''status'' (analysis_response clock rnd name) = Some (JStr ''success'')"
  by (simp add: analysis_response_def Let_def split: prod.splits)

lemma analyze_success:
  assumes "analyze_field exc_str clock rnd req = (resp, code)"
    and "jget ''status'' resp = Some (JStr ''success'')"
  shows "\<exists>name. resp = analysis_response clock rnd name \<and> code = 200"
  using analyze_field_cases [of exc_str clock rnd req] assms
  by (auto simp: missing_bounds_def)

lemma analysis_response_fields:
  "jpath [''ndvi_analysis'', ''value''] (analysis_response clock rnd name) =
     Some (JFloat (Fin (pyround (ar_ndvi rnd) 2)))"
  "jpath [''ndvi_analysis'', ''class''] (analysis_response clock rnd name) =
     Some (JStr (class_of (Fin (pyround (ar_ndvi rnd) 2))))"
  "jpath [''statistics'', ''min_ndvi''] (analysis_response clock rnd name) =
     Some (JFloat (Fin (pyround (pymax (fl (1/10)) (fsub (pyround (ar_ndvi rnd) 2) (fl (2/10)))) 2)))"
  "jpath [''statistics'', ''max_ndvi''] (analysis_response clock rnd name) =
     Some (JFloat (Fin (pyround (pymin 1 (fadd (pyround (ar_ndvi rnd) 2) (fl (15/100)))) 2)))"
  "jget ''recommendations'' (analysis_response clock rnd name) =
     Some (JArr (map JStr (recommendations (Fin (pyround (ar_ndvi rnd) 2)))))"
  by (simp_all add: analysis_response_def Let_def class_of_def split: prod.splits)

lemma fl_085_val: "fl (85/100) = 7656119366529843 / 9007199254740992"
  using fl_m1 [of "85/100"] by (simp add: rhe_eval)

lemma sample_analyze_rand_ok: "analyze_rand_ok sample_analyze_rand"
  using fl_085_val by (simp add: analyze_rand_ok_def sample_analyze_rand_def fl_quarter)

lemma post_square_success:
  "analyze_field exc_str clock rnd post_square =
     (analysis_response clock rnd (JStr (''Field_'' @ str_int (ar_name rnd))), 200)"
  by (simp add: analyze_field_def analyze_try_def post_square_def square_bounds_def dict_get_def Let_def)

lemma recs_distinct: "distinct [recs_excellent, recs_good, recs_moderate, recs_poor]"
  by (simp add: recs_excellent_def recs_good_def recs_moderate_def recs_poor_def)

section \<open>Facts about the status field\<close>

lemma weather_status:
  "weather clock rnd req = Inr (resp, code) \<Longrightarrow> jget ''status'' resp = Some (JStr ''success'')"
  by (auto simp: weather_def Let_def split: sum.splits)

lemma field_history_status:
  "field_history sm clock rnd req = Inr (resp, code) \<Longrightarrow> jget ''status'' resp = Some (JStr ''success'')"
  by (auto simp: field_history_def Let_def split: sum.splits if_splits)

lemma analyze_field_status:
  "analyze_field exc_str clock rnd req = (resp, code) \<Longrightarrow>
   jget ''status'' resp =
     Some (JStr (if req_method req = ''OPTIONS'' then ''ok''
                 else if code = 200 then ''success'' else ''error''))"
  by (auto simp: analyze_field_def analyze_try_def missing_bounds_def Let_def analysis_response_status
      split: sum.splits json.splits if_splits)

section \<open>The four-band classifier\<close>

text \<open>
  C1 (as stated, refuted at NaN): the claim says that for every float the class is
  \<open>poor\<close> exactly when \<open>v <= 0.3\<close>. For NaN the three strict tests fail, so the class is
  \<open>poor\<close>, while \<open>NaN <= 0.3\<close> is false.
\<close>

theorem get_ndvi_color_nan_counterexample:
  "\<not> (class_of NaN = ''poor'' \<longleftrightarrow> fle NaN c03)"
  by (simp add: class_of_cases)

text \<open>
  C1 (amended): the classifier is total; for every float that is not NaN the class is
  \<open>excellent\<close> iff \<open>v > 0.7\<close>, \<open>good\<close> iff \<open>0.5 < v <= 0.7\<close>, \<open>moderate\<close> iff
  \<open>0.3 < v <= 0.5\<close> and \<open>poor\<close> iff \<open>v <= 0.3\<close>; NaN is classified \<open>poor\<close>; every
  float gets exactly one of the four (colour, label, class) triples; and the floats
  \<open>0.7\<close>, \<open>0.5\<close>, \<open>0.3\<close> themselves fall into the lower band.
\<close>

theorem get_ndvi_color_bands:
  "(v \<noteq> NaN \<longrightarrow>
      (class_of v = ''excellent'' \<longleftrightarrow> fgt v c07) \<and>
      (class_of v = ''good'' \<longleftrightarrow> fgt v c05 \<and> fle v c07) \<and>
      (class_of v = ''moderate'' \<longleftrightarrow> fgt v c03 \<and> fle v c05) \<and>
      (class_of v = ''poor'' \<longleftrightarrow> fle v c03)) \<and>
   get_ndvi_color NaN = (''#ff0000'', ''Poor '' @ emoji_cross, ''poor'') \<and>
   get_ndvi_color v \<in>
     {(''#00ff00'', ''Excellent '' @ emoji_herb, ''excellent''),
      (''#aaff00'', ''Good '' @ emoji_check, ''good''),
      (''#ffff00'', ''Moderate '' @ emoji_warning, ''moderate''),
      (''#ff0000'', ''Poor '' @ emoji_cross, ''poor'')} \<and>
   class_of c07 = ''good'' \<and> class_of c05 = ''moderate'' \<and> class_of c03 = ''poor''"
proof -
  have bands: "(class_of v = ''excellent'' \<longleftrightarrow> fgt v c07) \<and>
      (class_of v = ''good'' \<longleftrightarrow> fgt v c05 \<and> fle v c07) \<and>
      (class_of v = ''moderate'' \<longleftrightarrow> fgt v c03 \<and> fle v c05) \<and>
      (class_of v = ''poor'' \<longleftrightarrow> fle v c03)" if "v \<noteq> NaN"
    using that fgt_c05_c07 [of v] fgt_c03_c05 [of v]
    by (auto simp: class_of_cases fle_iff_not_fgt thresholds_not_NaN)
  have nan: "get_ndvi_color NaN = (''#ff0000'', ''Poor '' @ emoji_cross, ''poor'')"
    by (simp add: get_ndvi_color_def)
  have range: "get_ndvi_color v \<in>
     {(''#00ff00'', ''Excellent '' @ emoji_herb, ''excellent''),
      (''#aaff00'', ''Good '' @ emoji_check, ''good''),
      (''#ffff00'', ''Moderate '' @ emoji_warning, ''moderate''),
      (''#ff0000'', ''Poor '' @ emoji_cross, ''poor'')}"
    by (simp add: get_ndvi_color_def)
  have edges: "class_of c07 = ''good'' \<and> class_of c05 = ''moderate'' \<and> class_of c03 = ''poor''"
    by (simp add: class_of_cases thresholds)
  from bands nan range edges show ?thesis by blast
qed

theorem get_ndvi_color_bands_witness:
  "Fin (3/5) \<noteq> NaN \<and> class_of (Fin (3/5)) = ''good'' \<and> fgt (Fin (3/5)) c05 \<and> fle (Fin (3/5)) c07"
proof -
  have "class_of (Fin (3/5)) = ''good''"
    by (simp add: class_of_cases thresholds)
  with get_ndvi_color_bands [of "Fin (3/5)"] show ?thesis by simp
qed

section \<open>The five-band interpretation\<close>

text \<open>
  C7: the interpretation function is total and maps every float to one of five fixed,
  pairwise different strings, chosen by strict comparisons with \<open>0.7\<close>, \<open>0.5\<close>, \<open>0.3\<close>
  and \<open>0.1\<close>; each of the five is the value at some float; a float equal to a threshold
  gets the string of the band below it.
\<close>

theorem get_ndvi_interpretation_bands:
  "(get_ndvi_interpretation v = interp_very_high \<longleftrightarrow> fgt v c07) \<and>
   (get_ndvi_interpretation v = interp_high \<longleftrightarrow> fgt v c05 \<and> \<not> fgt v c07) \<and>
   (get_ndvi_interpretation v = interp_moderate \<longleftrightarrow> fgt v c03 \<and> \<not> fgt v c05) \<and>
   (get_ndvi_interpretation v = interp_low \<longleftrightarrow> fgt v c01 \<and> \<not> fgt v c03) \<and>
   (get_ndvi_interpretation v = interp_very_low \<longleftrightarrow> \<not> fgt v c01) \<and>
   get_ndvi_interpretation v \<in>
     {interp_very_high, interp_high, interp_moderate, interp_low, interp_very_low} \<and>
   distinct [interp_very_high, interp_high, interp_moderate, interp_low, interp_very_low] \<and>
   get_ndvi_interpretation c07 = interp_high \<and>
   get_ndvi_interpretation c05 = interp_moderate \<and>
   get_ndvi_interpretation c03 = interp_low \<and>
   get_ndvi_interpretation c01 = interp_very_low \<and>
   get_ndvi_interpretation PInf = interp_very_high"
proof -
  note d = interp_distinct
  have bands: "(get_ndvi_interpretation v = interp_very_high \<longleftrightarrow> fgt v c07) \<and>
   (get_ndvi_interpretation v = interp_high \<longleftrightarrow> fgt v c05 \<and> \<not> fgt v c07) \<and>
   (get_ndvi_interpretation v = interp_moderate \<longleftrightarrow> fgt v c03 \<and> \<not> fgt v c05) \<and>
   (get_ndvi_interpretation v = interp_low \<longleftrightarrow> fgt v c01 \<and> \<not> fgt v c03) \<and>
   (get_ndvi_interpretation v = interp_very_low \<longleftrightarrow> \<not> fgt v c01)"
    using d fgt_c05_c07 [of v] fgt_c03_c05 [of v] fgt_c01_c03 [of v]
    by (auto simp: get_ndvi_interpretation_def)
  have range: "get_ndvi_interpretation v \<in>
     {interp_very_high, interp_high, interp_moderate, interp_low, interp_very_low}"
    by (simp add: get_ndvi_interpretation_def)
  have edges: "get_ndvi_interpretation c07 = interp_high \<and>
   get_ndvi_interpretation c05 = interp_moderate \<and>
   get_ndvi_interpretation c03 = interp_low \<and>
   get_ndvi_interpretation c01 = interp_very_low \<and>
   get_ndvi_interpretation PInf = interp_very_high"
    by (simp add: get_ndvi_interpretation_def thresholds)
  from bands range d edges show ?thesis by blast
qed

theorem get_ndvi_interpretation_bands_witness:
  "get_ndvi_interpretation (Fin (1/5)) = interp_low \<and> fgt (Fin (1/5)) c01 \<and> \<not> fgt (Fin (1/5)) c03"
proof -
  have "fgt (Fin (1/5)) c01 \<and> \<not> fgt (Fin (1/5)) c03"
    by (simp add: thresholds)
  with get_ndvi_interpretation_bands [of "Fin (1/5)"] show ?thesis by simp
qed

section \<open>Missing bounds\<close>

text \<open>
  C2 (as stated, refuted): a POST whose JSON body is the number \<open>5\<close> has no \<open>bounds\<close> key,
  yet the membership test on a number raises, the handler catches the exception, and the
  response is a 500, not a 400.
\<close>

theorem analyze_field_number_body_counterexample:
  "req_method post_five \<noteq> ''OPTIONS'' \<and> req_json post_five = Inr (JInt 5) \<and>
   jget ''bounds'' (JInt 5) = None \<and>
   analyze_field sample_exc_str sample_clock sample_analyze_rand post_five =
     (JObj [(''status'', JStr ''error''), (''message'', JStr ''Analysis error: TypeError'')], 500)"
  by (simp add: post_five_def analyze_field_def analyze_try_def sample_exc_str_def)

text \<open>
  C2 (amended): for every request other than OPTIONS whose JSON body is absent (\<open>None\<close>)
  or is a JSON object without a \<open>bounds\<close> key, the handler returns status code 400 and
  the object with exactly the fields \<open>status = "error"\<close> and
  \<open>message = "No field bounds provided"\<close>, so no analysis data.
\<close>

theorem analyze_field_missing_bounds:
  assumes "req_method req \<noteq> ''OPTIONS''"
    and "req_json req = Inr data"
    and "data = JNull \<or> (\<exists>kvs. data = JObj kvs \<and> ''bounds'' \<notin> fst ` set kvs)"
  shows "analyze_field exc_str clock rnd req =
     (JObj [(''status'', JStr ''error''), (''message'', JStr ''No field bounds provided'')], 400)"
  using assms by (auto simp: analyze_field_def analyze_try_def missing_bounds_def)

theorem analyze_field_missing_bounds_witness:
  "req_method post_name_only \<noteq> ''OPTIONS'' \<and>
   req_json post_name_only = Inr (JObj [(''name'', JStr ''North'')]) \<and>
   ''bounds'' \<notin> fst ` set [(''name'', JStr ''North'')] \<and>
   analyze_field sample_exc_str sample_clock sample_analyze_rand post_name_only =
     (JObj [(''status'', JStr ''error''), (''message'', JStr ''No field bounds provided'')], 400)"
proof -
  have h1: "req_method post_name_only \<noteq> ''OPTIONS''" by (simp add: post_name_only_def)
  have h2: "req_json post_name_only = Inr (JObj [(''name'', JStr ''North'')])"
    by (simp add: post_name_only_def)
  have h3: "''bounds'' \<notin> fst ` set [(''name'', JStr ''North'')]" by simp
  from h3 have h4: "JObj [(''name'', JStr ''North'')] = JNull \<or>
      (\<exists>kvs. JObj [(''name'', JStr ''North'')] = JObj kvs \<and> ''bounds'' \<notin> fst ` set kvs)"
    by blast
  from analyze_field_missing_bounds [OF h1 h2 h4] h1 h2 h3 show ?thesis by blast
qed

section \<open>Statistics of a successful analysis\<close>

text \<open>
  C3: whenever the draws respect the contract of the random source, a successful
  \<open>/analyze-field\<close> response has \<open>ndvi_analysis.value\<close> between the floats \<open>0.25\<close> and
  \<open>0.85\<close>, \<open>statistics.min_ndvi <= value <= statistics.max_ndvi\<close>, \<open>min_ndvi >= 0.1\<close> and
  \<open>max_ndvi <= 1.0\<close>, where the minimum is \<open>round(max(0.1, value - 0.2), 2)\<close> and the maximum
  is \<open>round(min(1.0, value + 0.15), 2)\<close>, all in float arithmetic.
\<close>

theorem analyze_field_ndvi_statistics:
  assumes "analyze_rand_ok rnd"
    and "analyze_field exc_str clock rnd req = (resp, code)"
    and "jget ''status'' resp = Some (JStr ''success'')"
  shows "\<exists>v mn mx.
     jpath [''ndvi_analysis'', ''value''] resp = Some (JFloat (Fin v)) \<and>
     jpath [''statistics'', ''min_ndvi''] resp = Some (JFloat (Fin mn)) \<and>
     jpath [''statistics'', ''max_ndvi''] resp = Some (JFloat (Fin mx)) \<and>
     mn = pyround (pymax (fl (1/10)) (fsub v (fl (2/10)))) 2 \<and>
     mx = pyround (pymin 1 (fadd v (fl (15/100)))) 2 \<and>
     fl (25/100) \<le> v \<and> v \<le> fl (85/100) \<and> mn \<le> v \<and> v \<le> mx \<and>
     fl (1/10) \<le> mn \<and> mx \<le> 1"
proof -
  from analyze_success [OF assms(2,3)] obtain name
    where resp: "resp = analysis_response clock rnd name" by blast
  from assms(1) have u: "fl (25/100) \<le> ar_ndvi rnd" "ar_ndvi rnd \<le> fl (85/100)"
    by (simp_all add: analyze_rand_ok_def)
  let ?v = "pyround (ar_ndvi rnd) 2"
  let ?mn = "pyround (pymax (fl (1/10)) (fsub ?v (fl (2/10)))) 2"
  let ?mx = "pyround (pymin 1 (fadd ?v (fl (15/100)))) 2"
  note f = analysis_response_fields [of clock rnd name]
  note s = ndvi_stats [OF u]
  show ?thesis
    unfolding resp
    by (rule exI [of _ ?v], rule exI [of _ ?mn], rule exI [of _ ?mx]) (use f(1,3,4) s in simp)
qed

theorem analyze_field_ndvi_statistics_witness:
  "analyze_rand_ok sample_analyze_rand \<and>
   jget ''status'' (fst (analyze_field sample_exc_str sample_clock sample_analyze_rand post_square))
     = Some (JStr ''success'') \<and>
   (\<exists>v mn mx.
     jpath [''ndvi_analysis'', ''value'']
       (fst (analyze_field sample_exc_str sample_clock sample_analyze_rand post_square)) = Some (JFloat (Fin v)) \<and>
     jpath [''statistics'', ''min_ndvi'']
       (fst (analyze_field sample_exc_str sample_clock sample_analyze_rand post_square)) = Some (JFloat (Fin mn)) \<and>
     jpath [''statistics'', ''max_ndvi'']
       (fst (analyze_field sample_exc_str sample_clock sample_analyze_rand post_square)) = Some (JFloat (Fin mx)) \<and>
     fl (25/100) \<le> v \<and> v \<le> fl (85/100) \<and> mn \<le> v \<and> v \<le> mx \<and> fl (1/10) \<le> mn \<and> mx \<le> 1)"
proof -
  let ?r = "analyze_field sample_exc_str sample_clock sample_analyze_rand post_square"
  have eq: "?r = (fst ?r, snd ?r)" by simp
  have st: "jget ''status'' (fst ?r) = Some (JStr ''success'')"
    by (simp add: post_square_success analysis_response_status)
  from analyze_field_ndvi_statistics [OF sample_analyze_rand_ok eq st] sample_analyze_rand_ok st
  show ?thesis by blast
qed

section \<open>Recommendations of a successful analysis\<close>

text \<open>
  C9: in every successful \<open>/analyze-field\<close> response the recommendations are one of four
  fixed, pairwise different lists, chosen by the same strict comparisons of the NDVI value
  with \<open>0.7\<close>, \<open>0.5\<close> and \<open>0.3\<close> as the class, so the list is the one of the band that
  \<open>ndvi_analysis.class\<close> reports.
\<close>

theorem analyze_field_recommendations:
  assumes "analyze_field exc_str clock rnd req = (resp, code)"
    and "jget ''status'' resp = Some (JStr ''success'')"
  shows "\<exists>v cls recs.
     jpath [''ndvi_analysis'', ''value''] resp = Some (JFloat v) \<and>
     jpath [''ndvi_analysis'', ''class''] resp = Some (JStr cls) \<and>
     jget ''recommendations'' resp = Some (JArr (map JStr recs)) \<and>
     cls = class_of v \<and>
     (fgt v c07 \<and> cls = ''excellent'' \<and> recs = recs_excellent \<or>
      \<not> fgt v c07 \<and> fgt v c05 \<and> cls = ''good'' \<and> recs = recs_good \<or>
      \<not> fgt v c05 \<and> fgt v c03 \<and> cls = ''moderate'' \<and> recs = recs_moderate \<or>
      \<not> fgt v c03 \<and> cls = ''poor'' \<and> recs = recs_poor) \<and>
     distinct [recs_excellent, recs_good, recs_moderate, recs_poor]"
proof -
  from analyze_success [OF assms] obtain name
    where resp: "resp = analysis_response clock rnd name" by blast
  let ?v = "Fin (pyround (ar_ndvi rnd) 2)"
  note f = analysis_response_fields [of clock rnd name]
  have bands: "fgt ?v c07 \<and> class_of ?v = ''excellent'' \<and> recommendations ?v = recs_excellent \<or>
      \<not> fgt ?v c07 \<and> fgt ?v c05 \<and> class_of ?v = ''good'' \<and> recommendations ?v = recs_good \<or>
      \<not> fgt ?v c05 \<and> fgt ?v c03 \<and> class_of ?v = ''moderate'' \<and> recommendations ?v = recs_moderate \<or>
      \<not> fgt ?v c03 \<and> class_of ?v = ''poor'' \<and> recommendations ?v = recs_poor"
    using fgt_c05_c07 [of ?v] fgt_c03_c05 [of ?v]
    by (auto simp: class_of_cases recommendations_def)
  show ?thesis
    unfolding resp
    by (rule exI [of _ ?v], rule exI [of _ "class_of ?v"], rule exI [of _ "recommendations ?v"])
      (use f(1,2,5) bands recs_distinct in simp)
qed

theorem analyze_field_recommendations_witness:
  "jget ''status'' (fst (analyze_field sample_exc_str sample_clock sample_analyze_rand post_square))
     = Some (JStr ''success'') \<and>
   jpath [''ndvi_analysis'', ''class'']
     (fst (analyze_field sample_exc_str sample_clock sample_analyze_rand post_square)) = Some (JStr ''good'') \<and>
   jget ''recommendations''
     (fst (analyze_field sample_exc_str sample_clock sample_analyze_rand post_square))
     = Some (JArr (map JStr recs_good))"
proof -
  let ?r = "analyze_field sample_exc_str sample_clock sample_analyze_rand post_square"
  have eq: "?r = (fst ?r, snd ?r)" by simp
  have st: "jget ''status'' (fst ?r) = Some (JStr ''success'')"
    by (simp add: post_square_success analysis_response_status)
  have v: "pyround (ar_ndvi sample_analyze_rand) 2 = fl (62/100)"
    by (simp add: pyround2_cent sample_analyze_rand_def rhe_eval)
  have v2: "fl (62/100) = 5584463537939415 / 9007199254740992"
    using fl_m1 [of "62/100"] by (simp add: rhe_eval)
  have pv: "pyround (ar_ndvi sample_analyze_rand) 2 = 5584463537939415 / 9007199254740992"
    by (simp only: v v2)
  have val: "jpath [''ndvi_analysis'', ''value''] (fst ?r) =
      Some (JFloat (Fin (pyround (ar_ndvi sample_analyze_rand) 2)))"
    unfolding post_square_success fst_conv by (rule analysis_response_fields(1))
  from analyze_field_recommendations [OF eq st] obtain w cls recs where
    a: "jpath [''ndvi_analysis'', ''value''] (fst ?r) = Some (JFloat w)"
    and b: "jpath [''ndvi_analysis'', ''class''] (fst ?r) = Some (JStr cls)"
    and c: "jget ''recommendations'' (fst ?r) = Some (JArr (map JStr recs))"
    and d: "fgt w c07 \<and> cls = ''excellent'' \<and> recs = recs_excellent \<or>
      \<not> fgt w c07 \<and> fgt w c05 \<and> cls = ''good'' \<and> recs = recs_good \<or>
      \<not> fgt w c05 \<and> fgt w c03 \<and> cls = ''moderate'' \<and> recs = recs_moderate \<or>
      \<not> fgt w c03 \<and> cls = ''poor'' \<and> recs = recs_poor"
    by blast
  from a val have "w = Fin (pyround (ar_ndvi sample_analyze_rand) 2)" by simp
  then have w: "w = Fin (5584463537939415 / 9007199254740992)" by (simp only: pv)
  have "\<not> fgt w c07" "fgt w c05" unfolding w by (simp_all add: thresholds)
  with d fgt_c03_c05 [of w] have "cls = ''good'' \<and> recs = recs_good" by blast
  with b c st show ?thesis by simp
qed

section \<open>The status field of every response\<close>

text \<open>
  C4 (as stated, refuted): the response of \<open>/health\<close> has the status \<open>"healthy"\<close>, which is
  neither \<open>"success"\<close> nor \<open>"error"\<close>.
\<close>

theorem health_status_counterexample:
  "jget ''status'' (fst (projr (respond sample_world HealthCheck))) = Some (JStr ''healthy'') \<and>
   ''healthy'' \<noteq> ''success'' \<and> ''healthy'' \<noteq> ''error''"
  by (simp add: health_check_def)

text \<open>
  C4 (amended): every JSON response a handler produces contains a \<open>status\<close> field holding a
  string; the string is \<open>"healthy"\<close> exactly on \<open>/health\<close>, \<open>"ok"\<close> exactly on an OPTIONS
  request to \<open>/analyze-field\<close>, and \<open>"success"\<close> or \<open>"error"\<close> on every other call,
  the two error handlers included.
\<close>

theorem respond_status:
  assumes "respond w c = Inr (resp, code)"
  shows "\<exists>s. jget ''status'' resp = Some (JStr s) \<and>
     s \<in> {''success'', ''error'', ''healthy'', ''ok''} \<and>
     (s = ''healthy'' \<longleftrightarrow> c = HealthCheck) \<and>
     (s = ''ok'' \<longleftrightarrow> (\<exists>req. c = AnalyzeField req \<and> req_method req = ''OPTIONS''))"
proof (cases c)
  case Home
  with assms show ?thesis by (auto simp: home_def)
next
  case TestSatellite
  with assms show ?thesis by (auto simp: test_satellite_def)
next
  case (AnalyzeField req)
  with assms have "analyze_field (w_exc_str w) (w_clock w) (w_analyze w) req = (resp, code)" by simp
  from analyze_field_status [OF this] AnalyzeField show ?thesis by auto
next
  case (Weather req)
  with assms have "weather (w_clock w) (w_weather w) req = Inr (resp, code)" by simp
  from weather_status [OF this] Weather show ?thesis by simp
next
  case (FieldHistory req)
  with assms have "field_history (w_sum w) (w_clock w) (w_history w) req = Inr (resp, code)" by simp
  from field_history_status [OF this] FieldHistory show ?thesis by simp
next
  case HealthCheck
  with assms show ?thesis by (auto simp: health_check_def)
next
  case NotFound
  with assms show ?thesis by (auto simp: not_found_def)
next
  case (ServerError e)
  with assms show ?thesis by (auto simp: server_error_def)
qed

theorem respond_status_witness:
  "respond sample_world (AnalyzeField post_nothing) =
     Inr (JObj [(''status'', JStr ''error''), (''message'', JStr ''No field bounds provided'')], 400) \<and>
   (\<exists>s. jget ''status'' (JObj [(''status'', JStr ''error''), (''message'', JStr ''No field bounds provided'')])
          = Some (JStr s) \<and> s \<in> {''success'', ''error'', ''healthy'', ''ok''})"
proof -
  have r: "respond sample_world (AnalyzeField post_nothing) =
     Inr (JObj [(''status'', JStr ''error''), (''message'', JStr ''No field bounds provided'')], 400)"
    by (simp add: analyze_field_def analyze_try_def missing_bounds_def post_nothing_def)
  from respond_status [OF r] r show ?thesis by blast
qed

section \<open>The field history\<close>

text \<open>
  C5 (as stated, refuted): \<open>average_ndvi\<close> is not always the arithmetic mean of the \<open>ndvi\<close>
  fields rounded to 2 decimals. When \<open>random.random()\<close> returns 0 in the first six
  iterations and 1/8 in the last two, the \<open>ndvi\<close> fields are six times the float \<open>0.3\<close> and
  twice the float \<open>0.36\<close>. Their arithmetic mean lies strictly between 0.31 and 0.315 and
  rounds to 0.31, while the float sum divided by 8 lies above 0.315, so that \<open>average_ndvi\<close>
  is the float \<open>0.32\<close>, with either summation of the interpreter.
\<close>

theorem field_history_average_counterexample:
  "history_rand_ok low_history_rand \<and>
   snd (projr (field_history Plain_Sum sample_clock low_history_rand get_plain)) = 200 \<and>
   ndvi_fields (fst (projr (field_history Plain_Sum sample_clock low_history_rand get_plain))) =
     [fl (3/10), fl (3/10), fl (3/10), fl (3/10), fl (3/10), fl (3/10), fl (36/100), fl (36/100)] \<and>
   jget ''average_ndvi'' (fst (projr (field_history Plain_Sum sample_clock low_history_rand get_plain))) =
     Some (JFloat (Fin (fl (32/100)))) \<and>
   snd (projr (field_history Neumaier_Sum sample_clock low_history_rand get_plain)) = 200 \<and>
   ndvi_fields (fst (projr (field_history Neumaier_Sum sample_clock low_history_rand get_plain))) =
     [fl (3/10), fl (3/10), fl (3/10), fl (3/10), fl (3/10), fl (3/10), fl (36/100), fl (36/100)] \<and>
   jget ''average_ndvi'' (fst (projr (field_history Neumaier_Sum sample_clock low_history_rand get_plain))) =
     Some (JFloat (Fin (fl (32/100)))) \<and>
   31/100 < arithmetic_mean
     [fl (3/10), fl (3/10), fl (3/10), fl (3/10), fl (3/10), fl (3/10), fl (36/100), fl (36/100)] \<and>
   arithmetic_mean
     [fl (3/10), fl (3/10), fl (3/10), fl (3/10), fl (3/10), fl (3/10), fl (36/100), fl (36/100)] < 315/1000 \<and>
   pyround (arithmetic_mean
     [fl (3/10), fl (3/10), fl (3/10), fl (3/10), fl (3/10), fl (3/10), fl (36/100), fl (36/100)]) 2 =
     fl (31/100) \<and>
   fl (31/100) \<noteq> fl (32/100)"
  unfolding cent_values low_response low_mean low_mean_rounded
  by (simp add: low_history_rand_ok)

text \<open>
  C5 (amended): with a valid clock reading not before 1970, every request to
  \<open>/field-history\<close> is answered with status code 200; the response echoes the query
  parameter \<open>field_id\<close> as a string (\<open>"1"\<close> when it is absent), has \<open>total_entries = 8\<close> and
  lists 8 entries whose date strings are strictly ascending. Its \<open>average_ndvi\<close> is
  \<open>round(sum(ndvi fields) / 8, 2)\<close> in float arithmetic, with either summation of the
  interpreter. For draws within the contract of the library this is the float of a decimal
  \<open>K / 100\<close> that is within \<open>0.005 + 1e-14\<close> of the arithmetic mean of the 8 \<open>ndvi\<close> fields,
  and it is that mean rounded to 2 decimals whenever the mean is farther than \<open>1e-14\<close> from
  the midpoint between two hundredths (100 times the mean is closer than \<open>1/2 - 1e-12\<close> to
  an integer).
\<close>

theorem field_history_response:
  assumes "valid_datetime (clock 0)" and "1970 \<le> dt_year (clock 0)"
  shows "\<exists>resp hs. field_history sm clock rnd req = Inr (resp, 200) \<and>
     jget ''field_id'' resp =
       Some (JStr (case map_of (req_args req) ''field_id'' of None \<Rightarrow> ''1'' | Some x \<Rightarrow> x)) \<and>
     jget ''total_entries'' resp = Some (JInt 8) \<and>
     jget ''history'' resp = Some (JArr (map entry_json hs)) \<and> length hs = 8 \<and>
     sorted_wrt (<) (map he_date hs) \<and>
     ndvi_fields resp = map he_ndvi hs \<and>
     jget ''average_ndvi'' resp =
       Some (JFloat (Fin (pyround (fdiv (py_sum sm (map he_ndvi hs)) 8) 2))) \<and>
     (history_rand_ok rnd \<longrightarrow>
        (\<exists>K. jget ''average_ndvi'' resp = Some (JFloat (Fin (fl (of_int K / 100)))) \<and>
           \<bar>of_int K / 100 - arithmetic_mean (map he_ndvi hs)\<bar> \<le> 1 / 200 + 1 / 100000000000000) \<and>
        (\<bar>arithmetic_mean (map he_ndvi hs) * 100
            - of_int (rhe (arithmetic_mean (map he_ndvi hs) * 100))\<bar> < 1 / 2 - 1 / 1000000000000 \<longrightarrow>
         jget ''average_ndvi'' resp =
           Some (JFloat (Fin (pyround (arithmetic_mean (map he_ndvi hs)) 2))))) \<and>
     (\<forall>h. jget ''date'' (entry_json h) = Some (JStr (he_date h)) \<and>
          jget ''ndvi'' (entry_json h) = Some (JFloat (Fin (he_ndvi h))))"
proof -
  from assms(2) have y: "90 < dt_year (clock 0)" by simp
  let ?hs = "map (\<lambda>i. make_entry ((prev_day ^^ (90 - i * 12)) (clock 0)) (rnd i)) [0..<8]"
  let ?xs = "map he_ndvi ?hs"
  from field_history_fields [where sm = sm and clock = clock and rnd = rnd and req = req, OF assms(1) y]
  obtain resp where r: "field_history sm clock rnd req = Inr (resp, 200)"
    "jget ''field_id'' resp =
       Some (JStr (case map_of (req_args req) ''field_id'' of None \<Rightarrow> ''1'' | Some x \<Rightarrow> x))"
    "jget ''total_entries'' resp = Some (JInt 8)"
    "jget ''history'' resp = Some (JArr (map entry_json ?hs))"
    and a: "jget ''average_ndvi'' resp =
       Some (JFloat (Fin (pyround (fdiv (py_sum sm ?xs) 8) 2)))"
    by blast
  have l: "length ?hs = 8" by simp
  note s = history_list_sorted [where clock = clock and rnd = rnd, OF assms(1) y]
  have lx: "length ?xs = 8" by simp
  have nf: "ndvi_fields resp = ?xs" by (rule ndvi_fields_entries [OF r(4)])
  have avg: "history_rand_ok rnd \<longrightarrow>
        (\<exists>K. jget ''average_ndvi'' resp = Some (JFloat (Fin (fl (of_int K / 100)))) \<and>
           \<bar>of_int K / 100 - arithmetic_mean ?xs\<bar> \<le> 1 / 200 + 1 / 100000000000000) \<and>
        (\<bar>arithmetic_mean ?xs * 100 - of_int (rhe (arithmetic_mean ?xs * 100))\<bar>
            < 1 / 2 - 1 / 1000000000000 \<longrightarrow>
         jget ''average_ndvi'' resp = Some (JFloat (Fin (pyround (arithmetic_mean ?xs) 2))))"
  proof (intro impI conjI)
    assume ok: "history_rand_ok rnd"
    note rg = history_ndvi_range [OF ok, of "\<lambda>i. (prev_day ^^ (90 - i * 12)) (clock 0)"]
    from average_near_mean(1) [OF lx rg, of sm]
    obtain K where K: "pyround (fdiv (py_sum sm ?xs) 8) 2 = fl (of_int K / 100)"
      "\<bar>of_int K / 100 - arithmetic_mean ?xs\<bar> \<le> 1 / 200 + 1 / 100000000000000"
      by blast
    from a K(1) have "jget ''average_ndvi'' resp = Some (JFloat (Fin (fl (of_int K / 100))))"
      by (simp only:)
    with K(2) show "\<exists>K. jget ''average_ndvi'' resp = Some (JFloat (Fin (fl (of_int K / 100)))) \<and>
           \<bar>of_int K / 100 - arithmetic_mean ?xs\<bar> \<le> 1 / 200 + 1 / 100000000000000"
      by (intro exI [of _ K] conjI)
    assume "\<bar>arithmetic_mean ?xs * 100 - of_int (rhe (arithmetic_mean ?xs * 100))\<bar>
        < 1 / 2 - 1 / 1000000000000"
    from average_near_mean(2) [OF lx rg this, of sm] a
    show "jget ''average_ndvi'' resp = Some (JFloat (Fin (pyround (arithmetic_mean ?xs) 2)))"
      by (simp only:)
  qed
  have e: "\<forall>h. jget ''date'' (entry_json h) = Some (JStr (he_date h)) \<and>
          jget ''ndvi'' (entry_json h) = Some (JFloat (Fin (he_ndvi h)))"
    by (simp add: entry_json_fields)
  from r l s nf a avg e show ?thesis
    by (intro exI [of _ resp] exI [of _ ?hs] conjI)
qed

theorem field_history_response_witness:
  "valid_datetime (sample_clock 0) \<and> 1970 \<le> dt_year (sample_clock 0) \<and>
   history_rand_ok sample_history_rand \<and>
   \<bar>arithmetic_mean [1/2, 1/2, 1/2, 1/2, 1/2, 1/2, 1/2, 1/2] * 100
      - of_int (rhe (arithmetic_mean [1/2, 1/2, 1/2, 1/2, 1/2, 1/2, 1/2, 1/2] * 100))\<bar>
      < 1 / 2 - 1 / 1000000000000 \<and>
   (\<exists>resp. field_history Plain_Sum sample_clock sample_history_rand get_field_42 = Inr (resp, 200) \<and>
      jget ''field_id'' resp = Some (JStr ''42'') \<and>
      jget ''total_entries'' resp = Some (JInt 8) \<and>
      ndvi_fields resp = [1/2, 1/2, 1/2, 1/2, 1/2, 1/2, 1/2, 1/2] \<and>
      jget ''average_ndvi'' resp = Some (JFloat (Fin (1/2))))"
proof -
  let ?F = "field_history Plain_Sum sample_clock sample_history_rand get_field_42"
  let ?hs = "map (\<lambda>i. make_entry ((prev_day ^^ (90 - i * 12)) (sample_clock 0)) (sample_history_rand i)) [0..<8]"
  have m: "map_of (req_args get_field_42) ''field_id'' = Some ''42''"
    by (simp add: get_field_42_def)
  have prem: "\<bar>arithmetic_mean [1/2, 1/2, 1/2, 1/2, 1/2, 1/2, 1/2, 1/2] * 100
      - of_int (rhe (arithmetic_mean [1/2, 1/2, 1/2, 1/2, 1/2, 1/2, 1/2, 1/2] * 100))\<bar>
      < (1 / 2 - 1 / 1000000000000 :: rat)"
    unfolding half_mean by simp
  from sample_clock_valid(2) have y: "90 < dt_year (sample_clock 0)" by simp
  from field_history_fields [where sm = Plain_Sum and clock = sample_clock
      and rnd = sample_history_rand and req = get_field_42, OF sample_clock_valid(1) y]
  obtain resp0 where r0: "?F = Inr (resp0, 200)"
    "jget ''history'' resp0 = Some (JArr (map entry_json ?hs))"
    by blast
  have f0: "ndvi_fields resp0 = [1/2, 1/2, 1/2, 1/2, 1/2, 1/2, 1/2, 1/2]"
    unfolding ndvi_fields_entries [OF r0(2)] by (rule sample_fields)
  have step: "\<exists>resp. ?F = Inr (resp, 200) \<and>
      jget ''field_id'' resp = Some (JStr ''42'') \<and>
      jget ''total_entries'' resp = Some (JInt 8) \<and>
      ndvi_fields resp = [1/2, 1/2, 1/2, 1/2, 1/2, 1/2, 1/2, 1/2] \<and>
      jget ''average_ndvi'' resp = Some (JFloat (Fin (1/2)))"
    if a: "?F = Inr (resp, 200)"
      and b: "jget ''field_id'' resp =
        Some (JStr (case map_of (req_args get_field_42) ''field_id'' of None \<Rightarrow> ''1'' | Some x \<Rightarrow> x))"
      and c: "jget ''total_entries'' resp = Some (JInt 8)"
      and d: "ndvi_fields resp = map he_ndvi hs"
      and e: "history_rand_ok sample_history_rand \<longrightarrow>
        (\<exists>K. jget ''average_ndvi'' resp = Some (JFloat (Fin (fl (of_int K / 100)))) \<and>
           \<bar>of_int K / 100 - arithmetic_mean (map he_ndvi hs)\<bar> \<le> 1 / 200 + 1 / 100000000000000) \<and>
        (\<bar>arithmetic_mean (map he_ndvi hs) * 100
            - of_int (rhe (arithmetic_mean (map he_ndvi hs) * 100))\<bar> < 1 / 2 - 1 / 1000000000000 \<longrightarrow>
         jget ''average_ndvi'' resp =
           Some (JFloat (Fin (pyround (arithmetic_mean (map he_ndvi hs)) 2))))"
    for resp and hs :: "hist_entry list"
  proof -
    from a r0(1) have "resp = resp0" by simp
    with f0 d have x: "map he_ndvi hs = [1/2, 1/2, 1/2, 1/2, 1/2, 1/2, 1/2, 1/2]" by simp
    from e sample_history_rand_ok
    have "\<bar>arithmetic_mean (map he_ndvi hs) * 100
            - of_int (rhe (arithmetic_mean (map he_ndvi hs) * 100))\<bar> < 1 / 2 - 1 / 1000000000000 \<longrightarrow>
         jget ''average_ndvi'' resp =
           Some (JFloat (Fin (pyround (arithmetic_mean (map he_ndvi hs)) 2)))"
      by blast
    with prem have "jget ''average_ndvi'' resp = Some (JFloat (Fin (1/2)))"
      unfolding x half_mean by simp
    moreover from b m have "jget ''field_id'' resp = Some (JStr ''42'')" by simp
    moreover from d x have "ndvi_fields resp = [1/2, 1/2, 1/2, 1/2, 1/2, 1/2, 1/2, 1/2]" by simp
    ultimately show ?thesis using a c by (intro exI [of _ resp] conjI)
  qed
  from field_history_response [where sm = Plain_Sum and clock = sample_clock
      and rnd = sample_history_rand and req = get_field_42,
      OF sample_clock_valid]
  have "\<exists>resp. ?F = Inr (resp, 200) \<and>
      jget ''field_id'' resp = Some (JStr ''42'') \<and>
      jget ''total_entries'' resp = Some (JInt 8) \<and>
      ndvi_fields resp = [1/2, 1/2, 1/2, 1/2, 1/2, 1/2, 1/2, 1/2] \<and>
      jget ''average_ndvi'' resp = Some (JFloat (Fin (1/2)))"
    by (elim exE conjE) (rule step)
  with sample_clock_valid sample_history_rand_ok prem show ?thesis by (intro conjI)
qed

text \<open>
  C6: under the same condition on the clock, the trend of the response is \<open>"improving"\<close>
  exactly when the \<open>ndvi\<close> of the last of the date-sorted entries is strictly greater than
  that of the first, and \<open>"stable"\<close> otherwise, equality included; it is never
  \<open>"insufficient data"\<close>, since there are always 8 entries.
\<close>

theorem field_history_trend:
  assumes "valid_datetime (clock 0)" and "1970 \<le> dt_year (clock 0)"
  shows "\<exists>resp hs. field_history sm clock rnd req = Inr (resp, 200) \<and>
     jget ''history'' resp = Some (JArr (map entry_json hs)) \<and> length hs = 8 \<and>
     sorted_wrt (<) (map he_date hs) \<and>
     jget ''trend'' resp =
       Some (JStr (if he_ndvi (hs ! 0) < he_ndvi (hs ! 7) then ''improving'' else ''stable'')) \<and>
     jget ''trend'' resp \<noteq> Some (JStr ''insufficient data'')"
proof -
  from assms(2) have y: "90 < dt_year (clock 0)" by simp
  let ?hs = "map (\<lambda>i. make_entry ((prev_day ^^ (90 - i * 12)) (clock 0)) (rnd i)) [0..<8]"
  from field_history_fields [where sm = sm and clock = clock and rnd = rnd and req = req, OF assms(1) y]
  obtain resp where r: "field_history sm clock rnd req = Inr (resp, 200)"
    "jget ''history'' resp = Some (JArr (map entry_json ?hs))"
    and t: "jget ''trend'' resp = Some (JStr (trend_of ?hs))"
    by blast
  have l: "length ?hs = 8" by simp
  note s = history_list_sorted [where clock = clock and rnd = rnd, OF assms(1) y]
  from t have t1: "jget ''trend'' resp =
       Some (JStr (if he_ndvi (?hs ! 0) < he_ndvi (?hs ! 7) then ''improving'' else ''stable''))"
    by (simp only: trend_of_8 [OF l])
  then have t2: "jget ''trend'' resp \<noteq> Some (JStr ''insufficient data'')"
    by (simp split: if_splits)
  from r l s t1 t2 show ?thesis by blast
qed

theorem field_history_trend_witness:
  "valid_datetime (sample_clock 0) \<and> 1970 \<le> dt_year (sample_clock 0) \<and>
   (\<exists>resp. field_history Plain_Sum sample_clock sample_history_rand get_plain = Inr (resp, 200) \<and>
      (jget ''trend'' resp = Some (JStr ''improving'') \<or> jget ''trend'' resp = Some (JStr ''stable'')))"
proof -
  have step: "\<exists>resp. field_history Plain_Sum sample_clock sample_history_rand get_plain = Inr (resp, 200) \<and>
      (jget ''trend'' resp = Some (JStr ''improving'') \<or> jget ''trend'' resp = Some (JStr ''stable''))"
    if a: "field_history Plain_Sum sample_clock sample_history_rand get_plain = Inr (resp, 200)"
      and b: "jget ''trend'' resp =
       Some (JStr (if he_ndvi (hs ! 0) < he_ndvi (hs ! 7) then ''improving'' else ''stable''))"
    for resp and hs :: "hist_entry list"
  proof -
    from b have "jget ''trend'' resp = Some (JStr ''improving'') \<or>
        jget ''trend'' resp = Some (JStr ''stable'')"
      by (cases "he_ndvi (hs ! 0) < he_ndvi (hs ! 7)") simp_all
    with a show ?thesis by (intro exI conjI)
  qed
  from field_history_trend [where sm = Plain_Sum and clock = sample_clock and rnd = sample_history_rand
      and req = get_plain, OF sample_clock_valid]
  have "\<exists>resp. field_history Plain_Sum sample_clock sample_history_rand get_plain = Inr (resp, 200) \<and>
      (jget ''trend'' resp = Some (JStr ''improving'') \<or> jget ''trend'' resp = Some (JStr ''stable''))"
    by (elim exE conjE) (rule step)
  with sample_clock_valid show ?thesis by (intro conjI)
qed

text \<open>
  C10: every history entry takes its \<open>health\<close> label from the unrounded NDVI
  \<open>0.3 + random.random() * 0.5\<close>, and its \<open>ndvi\<close> field from that value rounded to 2
  decimals. Hence a response can hold an entry whose \<open>ndvi\<close> is exactly \<open>0.5\<close> and whose
  health is \<open>"Good"\<close>, although \<open>0.5 > 0.5\<close> is false: when \<open>random.random()\<close> returns
  13/32, the unrounded NDVI is about 0.503125.
\<close>

theorem history_health_unrounded:
  "(\<forall>date r.
      he_ndvi (make_entry date r) = pyround (fadd (fl (3/10)) (fmul (er_ndvi r) (fl (5/10)))) 2 \<and>
      he_health (make_entry date r) =
        (if fgt (Fin (fadd (fl (3/10)) (fmul (er_ndvi r) (fl (5/10))))) c05 then ''Good''
         else if fgt (Fin (fadd (fl (3/10)) (fmul (er_ndvi r) (fl (5/10))))) c03 then ''Moderate''
         else ''Poor'')) \<and>
   0 \<le> er_ndvi (sample_history_rand 0) \<and> er_ndvi (sample_history_rand 0) < 1 \<and>
   (\<exists>resp hs. field_history sm sample_clock sample_history_rand get_plain = Inr (resp, 200) \<and>
      jget ''history'' resp = Some (JArr (map entry_json hs)) \<and> length hs = 8 \<and>
      jget ''ndvi'' (entry_json (hs ! 0)) = Some (JFloat (Fin (1/2))) \<and>
      jget ''health'' (entry_json (hs ! 0)) = Some (JStr ''Good'')) \<and>
   c05 = Fin (1/2) \<and> \<not> fgt (Fin (1/2)) c05"
proof -
  have gen: "\<forall>date r.
      he_ndvi (make_entry date r) = pyround (fadd (fl (3/10)) (fmul (er_ndvi r) (fl (5/10)))) 2 \<and>
      he_health (make_entry date r) =
        (if fgt (Fin (fadd (fl (3/10)) (fmul (er_ndvi r) (fl (5/10))))) c05 then ''Good''
         else if fgt (Fin (fadd (fl (3/10)) (fmul (er_ndvi r) (fl (5/10))))) c03 then ''Moderate''
         else ''Poor'')"
    by (simp add: make_entry_def Let_def)
  have draw: "0 \<le> er_ndvi (sample_history_rand 0) \<and> er_ndvi (sample_history_rand 0) < 1"
    by (simp add: sample_history_rand_def)
  let ?hs = "map (\<lambda>i. make_entry ((prev_day ^^ (90 - i * 12)) (sample_clock 0)) (sample_history_rand i)) [0..<8]"
  from sample_clock_valid(2) have y: "90 < dt_year (sample_clock 0)" by simp
  from field_history_fields [where sm = sm and clock = sample_clock and rnd = sample_history_rand
      and req = get_plain, OF sample_clock_valid(1) y]
  obtain resp where r: "field_history sm sample_clock sample_history_rand get_plain = Inr (resp, 200)"
    "jget ''history'' resp = Some (JArr (map entry_json ?hs))"
    by blast
  have l: "length ?hs = 8" by simp
  have h0: "?hs ! 0 = make_entry ((prev_day ^^ (90 - 0 * 12)) (sample_clock 0)) (sample_history_rand 0)"
    by (simp add: upt_rec)
  have e: "jget ''ndvi'' (entry_json (?hs ! 0)) = Some (JFloat (Fin (1/2)))"
    "jget ''health'' (entry_json (?hs ! 0)) = Some (JStr ''Good'')"
    unfolding h0 by (simp_all add: entry_json_fields sample_entry)
  from r l e have ex: "\<exists>resp hs. field_history sm sample_clock sample_history_rand get_plain = Inr (resp, 200) \<and>
      jget ''history'' resp = Some (JArr (map entry_json hs)) \<and> length hs = 8 \<and>
      jget ''ndvi'' (entry_json (hs ! 0)) = Some (JFloat (Fin (1/2))) \<and>
      jget ''health'' (entry_json (hs ! 0)) = Some (JStr ''Good'')"
    by blast
  have c: "c05 = Fin (1/2) \<and> \<not> fgt (Fin (1/2)) c05" by (simp add: thresholds)
  from gen draw ex c show ?thesis by blast
qed

section \<open>The weather forecast\<close>




end
